theory Spec2Isabelle
  imports Main "HOL-Library.Sublist"
begin

section \<open>Python string operations used by device-query.py\<close>

text \<open>
  The script works on Python \<open>str\<close> values returned by the session library. A
  \<^typ>\<open>string\<close> models such a value with one \<^typ>\<open>char\<close> per code point, for the
  code points below 256. Indices are Python integers (\<^typ>\<open>int\<close>): \<open>find\<close> answers
  \<open>-1\<close> when there is no occurrence, and a slice takes a negative bound from the end.
\<close>

primrec find_aux :: "string \<Rightarrow> string \<Rightarrow> nat \<Rightarrow> int" where
  "find_aux sub [] i = (if sub = [] then int i else - 1)"
| "find_aux sub (c # cs) i =
     (if prefix sub (c # cs) then int i else find_aux sub cs (Suc i))"

definition str_find :: "string \<Rightarrow> string \<Rightarrow> int" where
  \<comment> \<open>\<open>s.find(sub)\<close>: the lowest index of an occurrence of \<open>sub\<close>, or \<open>-1\<close>.\<close>
  "str_find s sub = find_aux sub s 0"

definition clamp_index :: "nat \<Rightarrow> int \<Rightarrow> nat" where
  \<comment> \<open>How a slice bound \<open>i\<close> is read on a sequence of length \<open>n\<close>.\<close>
  "clamp_index n i = (if i < 0 then nat (max 0 (i + int n)) else min (nat i) n)"

definition slice :: "'a list \<Rightarrow> int \<Rightarrow> int \<Rightarrow> 'a list" where
  \<comment> \<open>\<open>s[a:b]\<close>\<close>
  "slice s a b =
     (let lo = clamp_index (length s) a; hi = clamp_index (length s) b
      in take (hi - lo) (drop lo s))"

definition slice_from :: "'a list \<Rightarrow> int \<Rightarrow> 'a list" where
  \<comment> \<open>\<open>s[a:]\<close>\<close>
  "slice_from s a = drop (clamp_index (length s) a) s"

definition str_find_from :: "string \<Rightarrow> string \<Rightarrow> int \<Rightarrow> int" where
  \<comment> \<open>\<open>s.find(sub, start)\<close>: the search runs in \<open>s[start:]\<close>, the answer is an index of \<open>s\<close>.\<close>
  "str_find_from s sub start =
     (if int (length s) < start then - 1
      else let st = clamp_index (length s) start in find_aux sub (drop st s) st)"

definition isspace :: "char \<Rightarrow> bool" where
  \<comment> \<open>The characters \<open>str.strip()\<close> removes: tab to carriage return, the separators
      \<open>0x1c\<close> to \<open>0x1f\<close>, the space, \<open>0x85\<close> and \<open>0xa0\<close>.\<close>
  "isspace c =
     (let n = (of_char c :: nat)
      in (9 \<le> n \<and> n \<le> 13) \<or> (28 \<le> n \<and> n \<le> 32) \<or> n = 133 \<or> n = 160)"

definition strip :: "string \<Rightarrow> string" where
  "strip s = rev (dropWhile isspace (rev (dropWhile isspace s)))"

definition str_replace_quote :: "string \<Rightarrow> string" where
  \<comment> \<open>\<open>s.replace('"', '')\<close>\<close>
  "str_replace_quote s = filter (\<lambda>c. c \<noteq> CHR 0x22) s"

definition re_sub_bin :: "string \<Rightarrow> string" where
  \<comment> \<open>\<open>re.sub(r"\.bin$", "", s)\<close>: \<open>$\<close> matches at the end of the string and also just
      before a line feed that ends the string.\<close>
  "re_sub_bin s =
     (let n = length s in
      if drop (n - 4) s = ''.bin'' then take (n - 4) s
      else if drop (n - 5) s = ''.bin\<newline>'' then take (n - 5) s @ ''\<newline>''
      else s)"

fun str_split :: "char \<Rightarrow> string \<Rightarrow> string list" where
  \<comment> \<open>\<open>s.split(sep)\<close> for a separator of one character.\<close>
  "str_split sep [] = [[]]"
| "str_split sep (c # cs) =
     (if c = sep then [] # str_split sep cs
      else (case str_split sep cs of x # xs \<Rightarrow> (c # x) # xs | [] \<Rightarrow> [[c]]))"

definition lower_char :: "char \<Rightarrow> char" where
  \<comment> \<open>\<open>A\<close> to \<open>Z\<close> and the upper-case letters \<open>0xc0\<close> to \<open>0xde\<close> (without \<open>0xd7\<close>) move up
      by 32, which sets the bit of weight 32.\<close>
  "lower_char c =
     (let n = (of_char c :: nat)
      in if (65 \<le> n \<and> n \<le> 90) \<or> (192 \<le> n \<and> n \<le> 222 \<and> n \<noteq> 215)
         then (case c of Char b0 b1 b2 b3 b4 b5 b6 b7 \<Rightarrow> Char b0 b1 b2 b3 b4 True b6 b7)
         else c)"

definition str_lower :: "string \<Rightarrow> string" where
  "str_lower s = map lower_char s"

definition upper_char :: "char \<Rightarrow> char" where
  \<comment> \<open>\<open>a\<close> to \<open>z\<close> and the lower-case letters \<open>0xe0\<close> to \<open>0xfe\<close> (without \<open>0xf7\<close>) move down
      by 32. The upper-case forms of \<open>0xb5\<close>, \<open>0xdf\<close> and \<open>0xff\<close> lie outside the code
      points below 256; these characters are left as they are, which keeps every
      comparison of an upper-cased text with an ASCII text as Python decides it.\<close>
  "upper_char c =
     (let n = (of_char c :: nat)
      in if (97 \<le> n \<and> n \<le> 122) \<or> (224 \<le> n \<and> n \<le> 254 \<and> n \<noteq> 247)
         then (case c of Char b0 b1 b2 b3 b4 b5 b6 b7 \<Rightarrow> Char b0 b1 b2 b3 b4 False b6 b7)
         else c)"

definition str_upper :: "string \<Rightarrow> string" where
  "str_upper s = map upper_char s"

definition startswith :: "string \<Rightarrow> string \<Rightarrow> bool" where
  "startswith s p = prefix p s"

definition endswith :: "string \<Rightarrow> string \<Rightarrow> bool" where
  "endswith s p = suffix p s"

definition is_linebreak :: "char \<Rightarrow> bool" where
  \<comment> \<open>The line boundaries of \<open>str.splitlines()\<close> below 256: line feed, vertical tab,
      form feed, carriage return, \<open>0x1c\<close>, \<open>0x1d\<close>, \<open>0x1e\<close> and \<open>0x85\<close>.\<close>
  "is_linebreak c =
     (let n = (of_char c :: nat)
      in (10 \<le> n \<and> n \<le> 13) \<or> (28 \<le> n \<and> n \<le> 30) \<or> n = 133)"

fun splitlines_aux :: "string \<Rightarrow> string \<Rightarrow> string list" where
  \<comment> \<open>The first argument is the line read so far, reversed.\<close>
  "splitlines_aux cur [] = (if cur = [] then [] else [rev cur])"
| "splitlines_aux cur (c # cs) =
     (if c = CHR 0x0D \<and> cs \<noteq> [] \<and> hd cs = CHR 0x0A then rev cur # splitlines_aux [] (tl cs)
      else if is_linebreak c then rev cur # splitlines_aux [] cs
      else splitlines_aux (c # cur) cs)"

definition splitlines :: "string \<Rightarrow> string list" where
  \<comment> \<open>\<open>s.splitlines()\<close>: a carriage return with its line feed is one boundary, and no
      empty line follows a boundary that ends the text.\<close>
  "splitlines s = splitlines_aux [] s"

definition digit_char :: "nat \<Rightarrow> char" where
  "digit_char d = ''0123456789'' ! d"

fun str_nat :: "nat \<Rightarrow> string" where
  "str_nat n = (if n < 10 then [digit_char n] else str_nat (n div 10) @ [digit_char (n mod 10)])"

declare str_nat.simps [simp del]

definition str_int :: "int \<Rightarrow> string" where
  \<comment> \<open>\<open>str(i)\<close> for an integer.\<close>
  "str_int i = (if i < 0 then CHR ''-'' # str_nat (nat (- i)) else str_nat (nat i))"


section \<open>The world outside the script\<close>

text \<open>
  Exceptions are values. \<open>KeyError\<close> comes from a dictionary lookup, \<open>NameError\<close> from
  reading a name that nothing binds, \<open>Raised\<close> is an exception of a library the script
  calls (the session library, the file system), named by its class.
\<close>

datatype error = KeyError string | NameError string | Raised string

text \<open>
  The operations the script invokes on its collaborators: the clock, the session library
  (netmiko's \<open>ConnectHandler\<close>, \<open>enable\<close>, \<open>send_command\<close>, \<open>send_config_set\<close>,
  \<open>disconnect\<close>), \<open>time.sleep\<close>, \<open>os.makedirs\<close>, and opening a file for writing and
  writing its content. \<open>PathExists\<close> is the question \<open>os.path.exists\<close> puts to the file
  system; it changes nothing and is not recorded among the operations invoked.
\<close>

datatype call =
    Now
  | ConnectHandler string string string string string
  | Enable
  | SendCommand string
  | SendConfigSet string
  | Disconnect
  | Sleep nat
  | MakeDirs string
  | WriteFile string string
  | PathExists string

text \<open>
  The collaborators are deterministic but otherwise arbitrary: what an operation answers,
  and whether it raises, is a function of the operations invoked before it.
\<close>

type_synonym env = "call list \<Rightarrow> call \<Rightarrow> error + string"

text \<open>
  \<open>os.path\<close> is the module \<open>posixpath\<close> on a POSIX system and \<open>ntpath\<close> on Windows. The
  script's two path constants are Windows drive paths.
\<close>

datatype os_name = Posix | Nt

record world =
  trace :: "call list"     \<comment> \<open>the operations invoked so far, oldest first\<close>
  stdout :: "string list"  \<comment> \<open>the lines printed so far\<close>
  os_name :: os_name       \<comment> \<open>the platform the script runs on\<close>

type_synonym 'a io = "world \<Rightarrow> (error + 'a) \<times> world"

definition io_return :: "'a \<Rightarrow> 'a io" where
  "io_return x w = (Inr x, w)"

definition io_raise :: "error \<Rightarrow> 'a io" where
  "io_raise e w = (Inl e, w)"

definition io_bind :: "'a io \<Rightarrow> ('a \<Rightarrow> 'b io) \<Rightarrow> 'b io" where
  "io_bind m f w = (case m w of (Inl e, w') \<Rightarrow> (Inl e, w') | (Inr x, w') \<Rightarrow> f x w')"

definition invoke :: "env \<Rightarrow> call \<Rightarrow> string io" where
  "invoke env c w = (env (trace w) c, w\<lparr>trace := trace w @ [c]\<rparr>)"

definition print :: "string \<Rightarrow> unit io" where
  "print line w = (Inr (), w\<lparr>stdout := stdout w @ [line]\<rparr>)"

definition sleep :: "nat \<Rightarrow> unit io" where
  "sleep n w = (Inr (), w\<lparr>trace := trace w @ [Sleep n]\<rparr>)"

definition send_command :: "env \<Rightarrow> string \<Rightarrow> string io" where
  "send_command env cmd = invoke env (SendCommand cmd)"

definition send_config_set :: "env \<Rightarrow> string \<Rightarrow> string io" where
  "send_config_set env cmd = invoke env (SendConfigSet cmd)"

text \<open>
  A row of \<open>csv.DictReader\<close> is a dictionary from column names to cell texts, in the
  order of the columns. Rows with fewer or more cells than the header has columns, in which
  the reader stores \<open>None\<close> or a list, are not covered.
\<close>

type_synonym row = "(string \<times> string) list"

definition getitem :: "row \<Rightarrow> string \<Rightarrow> string io" where
  \<comment> \<open>\<open>row[key]\<close>\<close>
  "getitem r key =
     (case map_of r key of None \<Rightarrow> io_raise (KeyError key) | Some v \<Rightarrow> io_return v)"

text \<open>
  Every \<open>try\<close> of the script has the one clause \<open>except Error:\<close>. Python evaluates the
  expression of an \<open>except\<close> clause when the body has raised, to match the exception
  against it. The script binds no name \<open>Error\<close> (its imports are \<open>ConnectHandler\<close>,
  \<open>sys\<close>, \<open>csv\<close>, \<open>datetime\<close>, \<open>os\<close>, \<open>time\<close> and \<open>re\<close>; its other globals are the two
  path constants and its functions) and Python has no built-in of that name, so this
  evaluation raises \<open>NameError\<close>, which replaces the exception of the body, and the
  handler is not entered.
\<close>

definition try_except_Error :: "'a io \<Rightarrow> 'a io \<Rightarrow> 'a io" where
  "try_except_Error body handler w =
     (case body w of
        (Inr x, w') \<Rightarrow> (Inr x, w')
      | (Inl e, w') \<Rightarrow> (Inl (NameError ''Error''), w'))"

text \<open>
  \<open>posixpath.join\<close>: a component that starts with the separator discards what was joined
  before it, and a separator is inserted only after a non-empty path that does not already
  end with one.
\<close>

fun posixpath_join :: "string \<Rightarrow> string list \<Rightarrow> string" where
  "posixpath_join path [] = path"
| "posixpath_join path (b # bs) =
     posixpath_join
       (if startswith b ''/'' then b
        else if path = [] \<or> endswith path ''/'' then path @ b
        else path @ ''/'' @ b) bs"

text \<open>
  \<open>ntpath.join\<close> and \<open>ntpath.splitdrive\<close> as Python 3.11 has them. The separator is the
  backslash (\<open>0x5c\<close>), and the slash counts as a separator too. \<open>splitdrive\<close> cuts a path
  into a drive (a letter with its colon, or a UNC share) and the rest. In the join a
  component whose rest starts with a separator replaces the path joined so far, a component
  with another drive replaces drive and path, and any other component is appended after a
  backslash.
\<close>

definition is_nt_sep :: "char \<Rightarrow> bool" where
  "is_nt_sep c \<longleftrightarrow> c = CHR 0x5C \<or> c = CHR ''/''"

definition nt_splitdrive :: "string \<Rightarrow> string \<times> string" where
  "nt_splitdrive p =
     (if 2 \<le> length p then
        (let normp = map (\<lambda>c. if c = CHR ''/'' then CHR 0x5C else c) p in
         if slice normp 0 2 = [CHR 0x5C, CHR 0x5C] then
           (let start = (if str_upper (slice normp 0 8)
                            = [CHR 0x5C, CHR 0x5C, CHR ''?'', CHR 0x5C,
                               CHR ''U'', CHR ''N'', CHR ''C'', CHR 0x5C]
                         then 8 else 2);
                index = str_find_from normp [CHR 0x5C] start
            in if index = - 1 then (p, [])
               else (let index2 = str_find_from normp [CHR 0x5C] (index + 1)
                     in if index2 = - 1 then (p, [])
                        else (slice p 0 index2, slice_from p index2)))
         else if slice normp 1 2 = '':'' then (slice p 0 2, slice_from p 2)
         else ([], p))
      else ([], p))"

fun nt_join_parts :: "string \<Rightarrow> string \<Rightarrow> string list \<Rightarrow> string \<times> string" where
  \<comment> \<open>the loop of \<open>ntpath.join\<close> over the components\<close>
  "nt_join_parts result_drive result_path [] = (result_drive, result_path)"
| "nt_join_parts result_drive result_path (p # ps) =
     (case nt_splitdrive p of (p_drive, p_path) \<Rightarrow>
        if p_path \<noteq> [] \<and> is_nt_sep (hd p_path) then
          nt_join_parts (if p_drive \<noteq> [] \<or> result_drive = [] then p_drive else result_drive)
            p_path ps
        else if p_drive \<noteq> [] \<and> p_drive \<noteq> result_drive
                \<and> str_lower p_drive \<noteq> str_lower result_drive then
          nt_join_parts p_drive p_path ps
        else
          nt_join_parts
            (if p_drive \<noteq> [] \<and> p_drive \<noteq> result_drive then p_drive else result_drive)
            ((if result_path \<noteq> [] \<and> \<not> is_nt_sep (last result_path)
              then result_path @ [CHR 0x5C] else result_path) @ p_path)
            ps)"

definition ntpath_join :: "string \<Rightarrow> string list \<Rightarrow> string" where
  "ntpath_join path parts =
     (case nt_splitdrive path of (drive, rest) \<Rightarrow>
        (case nt_join_parts drive rest parts of (result_drive, result_path) \<Rightarrow>
           if result_path \<noteq> [] \<and> \<not> is_nt_sep (hd result_path)
              \<and> result_drive \<noteq> [] \<and> last result_drive \<noteq> CHR '':''
           then result_drive @ [CHR 0x5C] @ result_path
           else result_drive @ result_path))"

definition path_join :: "os_name \<Rightarrow> string \<Rightarrow> string list \<Rightarrow> string" where
  "path_join platform path parts =
     (case platform of Posix \<Rightarrow> posixpath_join path parts | Nt \<Rightarrow> ntpath_join path parts)"

definition os_path_join :: "string \<Rightarrow> string list \<Rightarrow> string io" where
  \<comment> \<open>\<open>os.path.join(path, *parts)\<close> on the platform of the run\<close>
  "os_path_join path parts w = (Inr (path_join (os_name w) path parts), w)"

definition os_path_exists :: "env \<Rightarrow> string \<Rightarrow> bool io" where
  \<comment> \<open>\<open>os.path.exists(p)\<close>: \<open>True\<close> when the file system says so, \<open>False\<close> otherwise, also
      when the question cannot be answered\<close>
  "os_path_exists env p w = (Inr (env (trace w) (PathExists p) = Inr ''True''), w)"

definition os_makedirs :: "env \<Rightarrow> string \<Rightarrow> unit io" where
  "os_makedirs env p w =
     (case env (trace w) (MakeDirs p) of
        Inl e \<Rightarrow> (Inl e, w\<lparr>trace := trace w @ [MakeDirs p]\<rparr>)
      | Inr _ \<Rightarrow> (Inr (), w\<lparr>trace := trace w @ [MakeDirs p]\<rparr>))"

definition write_file :: "env \<Rightarrow> string \<Rightarrow> string \<Rightarrow> unit io" where
  \<comment> \<open>\<open>with open(p, 'w') as file: file.write(content)\<close>\<close>
  "write_file env p content w =
     (case env (trace w) (WriteFile p content) of
        Inl e \<Rightarrow> (Inl e, w\<lparr>trace := trace w @ [WriteFile p content]\<rparr>)
      | Inr _ \<Rightarrow> (Inr (), w\<lparr>trace := trace w @ [WriteFile p content]\<rparr>))"

section \<open>The script\<close>

definition BACKUP_DIR_PATH :: string where
  "BACKUP_DIR_PATH = ''C:/Temp/_CiscoDevNet/backup''"

subsection \<open>\<open>get_devices_from_file\<close>\<close>

text \<open>
  The argument is the sequence of rows the reader yields for the device file. The inner
  loop (lines 30 to 33) prints one notice for each accepted device of the same hostname
  and has no \<open>break\<close>; the flag it returns is \<open>dup\<close>.
\<close>

definition dup_notice :: "string \<Rightarrow> string" where
  "dup_notice h = ''Duplicated device '' @ [CHR 0x27] @ h @ [CHR 0x27] @ '' - skipped''"

definition add_notice :: "string \<Rightarrow> string" where
  "add_notice h = ''Add unique device '' @ [CHR 0x27] @ h @ [CHR 0x27] @ '' to device list''"

fun scan_device_list :: "row list \<Rightarrow> row \<Rightarrow> bool \<Rightarrow> bool io" where
  "scan_device_list [] r dup w = (Inr dup, w)"
| "scan_device_list (dev # devs) r dup w =
     (case getitem dev ''hostname'' w of
        (Inl e, w1) \<Rightarrow> (Inl e, w1)
      | (Inr h, w1) \<Rightarrow>
          (case getitem r ''hostname'' w1 of
             (Inl e, w2) \<Rightarrow> (Inl e, w2)
           | (Inr h', w2) \<Rightarrow>
               if h = h' then
                 (case io_bind (getitem r ''hostname'') (\<lambda>x. print (dup_notice x)) w2 of
                    (Inl e, w3) \<Rightarrow> (Inl e, w3)
                  | (Inr _, w3) \<Rightarrow> scan_device_list devs r True w3)
               else scan_device_list devs r dup w2))"

fun read_rows :: "row list \<Rightarrow> row list \<Rightarrow> row list io" where
  "read_rows [] device_list w = (Inr device_list, w)"
| "read_rows (r # rows) device_list w =
     (case scan_device_list device_list r False w of
        (Inl e, w1) \<Rightarrow> (Inl e, w1)
      | (Inr dup, w1) \<Rightarrow>
          if \<not> dup then
            (case io_bind (getitem r ''hostname'') (\<lambda>x. print (add_notice x)) w1 of
               (Inl e, w2) \<Rightarrow> (Inl e, w2)
             | (Inr _, w2) \<Rightarrow> read_rows rows (device_list @ [r]) w2)
          else read_rows rows device_list w1)"

definition get_devices_from_file :: "row list \<Rightarrow> row list io" where
  "get_devices_from_file rows = read_rows rows []"

subsection \<open>Session and backup\<close>

definition get_current_date_and_time :: "env \<Rightarrow> string io" where
  \<comment> \<open>The clock's answer is the time of day, formatted \<open>%Y_%m_%d-%H_%M_%S\<close>.\<close>
  "get_current_date_and_time env = invoke env Now"

definition connect_to_device :: "env \<Rightarrow> row \<Rightarrow> unit io" where
  "connect_to_device env device =
     io_bind (getitem device ''ip'') (\<lambda>ip.
     io_bind (getitem device ''username'') (\<lambda>username.
     io_bind (getitem device ''password'') (\<lambda>password.
     io_bind (getitem device ''device_type'') (\<lambda>device_type.
     io_bind (getitem device ''secret'') (\<lambda>secret.
     io_bind (invoke env (ConnectHandler ip username password device_type secret)) (\<lambda>_.
     io_return ()))))))"

definition disconnect_from_device :: "env \<Rightarrow> string \<Rightarrow> unit io" where
  "disconnect_from_device env hostname = io_bind (invoke env Disconnect) (\<lambda>_. io_return ())"

definition get_backup_file_path :: "env \<Rightarrow> string \<Rightarrow> string \<Rightarrow> string io" where
  "get_backup_file_path env hostname timestamp =
     io_bind (os_path_join BACKUP_DIR_PATH [hostname]) (\<lambda>dir.
     io_bind (os_path_exists env dir) (\<lambda>present.
     io_bind (if \<not> present
              then io_bind (os_path_join BACKUP_DIR_PATH [hostname]) (\<lambda>dir. os_makedirs env dir)
              else io_return ()) (\<lambda>_.
     os_path_join BACKUP_DIR_PATH [hostname, hostname @ ''-'' @ timestamp @ ''.txt''])))"

definition create_backup :: "env \<Rightarrow> string \<Rightarrow> string \<Rightarrow> bool io" where
  "create_backup env backup_file_path hostname =
     try_except_Error
       (io_bind (send_command env ''sh run'') (\<lambda>output.
        io_bind (write_file env backup_file_path output) (\<lambda>_.
        io_return True)))
       (io_bind (print (''Error! Unable to backup device '' @ [CHR 0x27] @ hostname @ [CHR 0x27])) (\<lambda>_.
        io_return False))"

subsection \<open>The fact extractors\<close>

text \<open>
  The handlers of the four extractors format their message with \<open>hostname\<close>, which is
  neither a parameter nor a local of these functions nor a global of the script.
\<close>

definition inv_parse :: "string \<Rightarrow> string" where
  \<comment> \<open>lines 100 to 102\<close>
  "inv_parse output =
     (let output1 = slice_from output (str_find output ''PID:'' + 4);
          output2 = slice output1 0 (str_find output1 '','')
      in strip output2)"

definition get_device_inv_info :: "env \<Rightarrow> string io" where
  "get_device_inv_info env =
     try_except_Error
       (io_bind (send_command env ''sh inv'') (\<lambda>output. io_return (inv_parse output)))
       (io_raise (NameError ''hostname''))"

definition ver_image_text :: "string \<Rightarrow> string" where
  \<comment> \<open>lines 116 and 117: the text after the marker up to the line feed, stripped, without
      quotes and without a final \<open>.bin\<close>\<close>
  "ver_image_text output =
     (let idx = str_find output ''System image file is'' + int (length ''System image file is'')
      in re_sub_bin (str_replace_quote (strip (slice output idx (str_find_from output ''\<newline>'' idx)))))"

definition ver_file_name :: "string \<Rightarrow> string" where
  \<comment> \<open>lines 119 to 122, applied to the text of lines 116 and 117\<close>
  "ver_file_name text =
     (let output = slice_from text (str_find text '':'' + 1);
          path_items = str_split CHR ''/'' output
      in path_items ! (length path_items - 1))"

definition ver_parse :: "string \<Rightarrow> string" where
  \<comment> \<open>lines 116 to 126\<close>
  "ver_parse output =
     (let name = ver_file_name (ver_image_text output);
          pe_npe = (if str_find (str_lower name) ''npe'' \<noteq> - 1 then ''NPE'' else ''PE '')
      in name @ '' | '' @ pe_npe)"

definition get_device_ver_info :: "env \<Rightarrow> string io" where
  "get_device_ver_info env =
     try_except_Error
       (io_bind (send_command env ''sh ver'') (\<lambda>output. io_return (ver_parse output)))
       (io_raise (NameError ''hostname''))"

definition cdp_scanned :: "string \<Rightarrow> string" where
  \<comment> \<open>line 151\<close>
  "cdp_scanned output = slice output (str_find output ''Device ID'') (int (length output))"

definition cdp_count :: "string \<Rightarrow> int" where
  \<comment> \<open>lines 151 to 158, from \<open>cdp_neighbours = 0\<close>\<close>
  "cdp_count output =
     foldl (\<lambda>cdp_neighbours str1.
              if \<not> startswith str1 '' '' then cdp_neighbours + 1 else cdp_neighbours)
       (0 - 1) (splitlines (cdp_scanned output))"

definition get_device_cdp_info :: "env \<Rightarrow> string io" where
  "get_device_cdp_info env =
     io_bind
       (try_except_Error
          (io_bind (send_command env ''sh cdp'') (\<lambda>output.
           io_return (if str_find output ''CDP is not enabled'' < 0 then ''ON'' else ''OFF'')))
          (io_raise (NameError ''hostname''))) (\<lambda>cdp_run.
     io_bind
       (if cdp_run = ''ON'' then
          try_except_Error
            (io_bind (send_command env ''sh cdp nei'') (\<lambda>output. io_return (cdp_count output)))
            (io_raise (NameError ''hostname''))
        else io_return 0) (\<lambda>cdp_neighbours.
     io_return (''CDP is '' @ cdp_run @
                (if cdp_run = ''ON'' then '', '' @ str_int cdp_neighbours @ '' peers'' else []))))"

definition getset_device_ntp_info :: "env \<Rightarrow> string \<Rightarrow> string io" where
  "getset_device_ntp_info env ntpserver =
     try_except_Error
       (io_bind (send_command env (''ping '' @ ntpserver)) (\<lambda>output.
        io_bind
          (if str_find output ''Success rate is 0'' \<noteq> - 1
           then io_return ''NTP server not reachable, ''
           else io_bind (send_config_set env (''ntp server '' @ ntpserver)) (\<lambda>_. io_return [])) (\<lambda>ntp_status.
        io_bind (send_command env ''sh ntp status | i Clock is'') (\<lambda>output.
        if str_find output ''Clock is unsynchronized'' \<noteq> - 1
        then io_return (ntp_status @ ''Clock is not sync'')
        else io_return (ntp_status @ ''Clock is Sync'')))))
       (io_raise (NameError ''hostname''))"

subsection \<open>\<open>process_target\<close>\<close>

definition process_target :: "env \<Rightarrow> row \<Rightarrow> unit io" where
  "process_target env device =
     io_bind (get_current_date_and_time env) (\<lambda>timestamp.
     io_bind (connect_to_device env device) (\<lambda>connection.
     io_bind (invoke env Enable) (\<lambda>_.
     io_bind (send_command env ''terminal len 0'') (\<lambda>_.
     io_bind (sleep 1) (\<lambda>_.
     io_bind (send_command env ''terminal width 511'') (\<lambda>_.
     io_bind (sleep 1) (\<lambda>_.
     io_bind (getitem device ''hostname'') (\<lambda>hostname.
     io_bind (get_backup_file_path env hostname timestamp) (\<lambda>backup_file_path.
     io_bind (getitem device ''hostname'') (\<lambda>hostname.
     io_bind (create_backup env backup_file_path hostname) (\<lambda>_.
     io_bind (get_device_inv_info env) (\<lambda>device_inv.
     io_bind (get_device_ver_info env) (\<lambda>device_ver.
     io_bind (get_device_cdp_info env) (\<lambda>device_cdp.
     io_bind (getitem device ''ntp'') (\<lambda>ntp.
     io_bind (getset_device_ntp_info env ntp) (\<lambda>device_ntp.
     io_bind (getitem device ''hostname'') (\<lambda>hostname.
     io_bind (print (hostname @ '' | '' @ device_inv @ '' | '' @ device_ver @ '' | ''
                      @ device_cdp @ '' | '' @ device_ntp)) (\<lambda>_.
     io_bind (getitem device ''hostname'') (\<lambda>hostname.
     disconnect_from_device env hostname)))))))))))))))))))"

subsection \<open>The registry rule, as a function of the rows\<close>

text \<open>
  The rule of the registry in words: go through the rows in order; a row whose hostname
  an accepted row already has is skipped with a duplicate notice, any other row is
  accepted at the end of the list. \<open>first_seen\<close> is the list this rule accepts and
  \<open>notices\<close> the lines it prints, from the rows accepted so far.
\<close>

definition hostname_of :: "row \<Rightarrow> string" where
  "hostname_of r = (case map_of r ''hostname'' of Some h \<Rightarrow> h | None \<Rightarrow> [])"

fun first_seen :: "row list \<Rightarrow> row list \<Rightarrow> row list" where
  "first_seen acc [] = acc"
| "first_seen acc (r # rows) =
     (if hostname_of r \<in> hostname_of ` set acc then first_seen acc rows
      else first_seen (acc @ [r]) rows)"

fun notices :: "row list \<Rightarrow> row list \<Rightarrow> string list" where
  "notices acc [] = []"
| "notices acc (r # rows) =
     (if hostname_of r \<in> hostname_of ` set acc
      then replicate (length (filter (\<lambda>d. hostname_of d = hostname_of r) acc))
             (dup_notice (hostname_of r)) @ notices acc rows
      else add_notice (hostname_of r) # notices (acc @ [r]) rows)"

subsection \<open>Properties of actions\<close>

text \<open>
  An action never disconnects when the operations it invokes, whatever its outcome, do not
  include \<open>disconnect\<close>. It disconnects last when every run of it that returns has
  invoked \<open>disconnect\<close> once, as its final operation. It returns when no run of it
  raises.
\<close>

definition never_disconnects :: "'a io \<Rightarrow> bool" where
  "never_disconnects m \<longleftrightarrow>
     (\<forall>w. \<exists>evs. trace (snd (m w)) = trace w @ evs \<and> Disconnect \<notin> set evs)"

definition disconnects_last :: "'a io \<Rightarrow> bool" where
  "disconnects_last m \<longleftrightarrow>
     (\<forall>w r w'. m w = (Inr r, w') \<longrightarrow>
        (\<exists>evs. trace w' = trace w @ evs @ [Disconnect] \<and> Disconnect \<notin> set evs))"

definition returns :: "'a io \<Rightarrow> bool" where
  "returns m \<longleftrightarrow> (\<forall>w. \<exists>x w'. m w = (Inr x, w'))"

section \<open>Example environments\<close>

text \<open>
  A scripted environment answers each operation from a table, whatever came before, and
  answers an operation the table does not list with the empty text (so that no path
  exists in it unless the table says so). The examples start from a world in which
  nothing has happened; \<open>world0\<close> is on a POSIX system, and \<open>world0\<lparr>os_name := Nt\<rparr>\<close> is the
  same world on Windows.
\<close>

definition scripted :: "(call \<times> (error + string)) list \<Rightarrow> env" where
  "scripted answers tr c = (case map_of answers c of Some r \<Rightarrow> r | None \<Rightarrow> Inr [])"

definition world0 :: world where
  "world0 = \<lparr>trace = [], stdout = [], os_name = Posix\<rparr>"

definition device_R1 :: row where
  "device_R1 = [(''hostname'', ''R1''), (''ip'', ''10.0.0.1''), (''username'', ''admin''),
                (''password'', ''pw''), (''secret'', ''en''), (''device_type'', ''cisco_ios''),
                (''ntp'', ''10.0.0.254'')]"

section \<open>Facts about the string operations\<close>

lemma find_aux_ge: "find_aux sub s i = - 1 \<or> int i \<le> find_aux sub s i"
  by (induction s arbitrary: i) force+

lemma find_aux_none_iff: "find_aux sub s i = - 1 \<longleftrightarrow> \<not> sublist sub s"
proof (induction s arbitrary: i)
  case Nil
  show ?case by simp
next
  case (Cons c cs)
  have ge: "find_aux sub cs (Suc i) = - 1 \<or> int (Suc i) \<le> find_aux sub cs (Suc i)"
    by (rule find_aux_ge)
  show ?case
    using Cons.IH [of "Suc i"] by (auto simp: sublist_Cons_right)
qed

lemma str_find_none_iff: "str_find s sub = - 1 \<longleftrightarrow> \<not> sublist sub s"
  by (simp add: str_find_def find_aux_none_iff)

lemma str_find_range: "- 1 \<le> str_find s sub"
  using find_aux_ge [of sub s 0] by (auto simp: str_find_def)

lemma str_find_neg_iff: "str_find s sub < 0 \<longleftrightarrow> \<not> sublist sub s"
  using str_find_range [of s sub] str_find_none_iff [of s sub] by auto

text \<open>The answer of \<open>find\<close> is the first occurrence.\<close>

lemma find_aux_first:
  "prefix sub post \<Longrightarrow> \<forall>k<length pre. \<not> prefix sub (drop k (pre @ post))
     \<Longrightarrow> find_aux sub (pre @ post) i = int (i + length pre)"
proof (induction pre arbitrary: i)
  case Nil
  then show ?case by (cases post) auto
next
  case (Cons c pre)
  have np: "\<not> prefix sub (c # pre @ post)"
    using Cons.prems(2) by (auto dest: spec [of _ 0])
  have "\<forall>k<length pre. \<not> prefix sub (drop k (pre @ post))"
  proof (intro allI impI)
    fix k assume "k < length pre"
    then have "\<not> prefix sub (drop (Suc k) ((c # pre) @ post))"
      using Cons.prems(2) by (metis Suc_less_eq length_Cons)
    then show "\<not> prefix sub (drop k (pre @ post))" by simp
  qed
  then have "find_aux sub (pre @ post) (Suc i) = int (Suc i + length pre)"
    using Cons.IH [OF Cons.prems(1)] by blast
  then show ?case using np by simp
qed

lemma str_find_first:
  "prefix sub post \<Longrightarrow> \<forall>k<length pre. \<not> prefix sub (drop k (pre @ post))
     \<Longrightarrow> str_find (pre @ post) sub = int (length pre)"
  using find_aux_first [of sub post pre 0] by (simp add: str_find_def)

lemma find_aux_char:
  "find_aux [c] s i = (if c \<in> set s then int (i + length (takeWhile (\<lambda>x. x \<noteq> c) s)) else - 1)"
  by (induction s arbitrary: i) auto

lemma str_find_char:
  "str_find s [c] = (if c \<in> set s then int (length (takeWhile (\<lambda>x. x \<noteq> c) s)) else - 1)"
  by (simp add: str_find_def find_aux_char)

lemma slice_from_nat: "slice_from s (int k) = drop k s"
  by (simp add: slice_from_def clamp_index_def min_def)

lemma slice_zero_nat: "slice s 0 (int k) = take k s"
  by (simp add: slice_def clamp_index_def min_def)

lemma slice_zero_minus_one: "slice s 0 (- 1) = butlast s"
proof -
  have "nat (max 0 (- 1 + int (length s))) = length s - 1" by arith
  then show ?thesis by (simp add: slice_def clamp_index_def butlast_conv_take)
qed

lemma slice_nat_to_end: "slice s (int k) (int (length s)) = drop k s"
  by (simp add: slice_def clamp_index_def min_def)

lemma slice_minus_one_to_end:
  "slice s (- 1) (int (length s)) = (if s = [] then [] else [last s])"
proof (cases "s = []")
  case True
  then show ?thesis by (simp add: slice_def clamp_index_def)
next
  case False
  have c: "nat (max 0 (- 1 + int (length s))) = length s - 1" by arith
  have "drop (length (butlast s)) (butlast s @ [last s]) = [last s]" by simp
  then have "drop (length s - 1) s = [last s]"
    using False by simp
  then show ?thesis using False c by (simp add: slice_def clamp_index_def)
qed

lemma sublist_strip: "sublist (strip s) s"
proof -
  have "sublist (rev (strip s)) (rev s)"
    unfolding strip_def rev_rev_ident
    by (rule sublist_order.order.trans [OF sublist_dropWhile]) (simp add: sublist_rev_left)
  then show ?thesis by simp
qed

lemma str_int_minus_one: "str_int (- 1) = ''-1''"
  by (simp add: str_int_def str_nat.simps digit_char_def)

lemma send_command_run:
  "send_command env c w = (env (trace w) (SendCommand c), w\<lparr>trace := trace w @ [SendCommand c]\<rparr>)"
  by (simp add: send_command_def invoke_def)


section \<open>The inventory extractor\<close>

lemma inv_parse_no_marker:
  assumes "\<not> sublist ''PID:'' out"
  shows "inv_parse out =
         strip (if CHR '','' \<in> set (drop 3 out)
                then takeWhile (\<lambda>c. c \<noteq> CHR '','') (drop 3 out)
                else butlast (drop 3 out))"
proof -
  have "str_find out ''PID:'' = - 1"
    using assms by (simp add: str_find_none_iff)
  then have "str_find out ''PID:'' + 4 = int 3" by simp
  then have o1: "slice_from out (str_find out ''PID:'' + 4) = drop 3 out"
    by (simp only: slice_from_nat)
  have p: "inv_parse out = strip (slice (drop 3 out) 0 (str_find (drop 3 out) '',''))"
    unfolding inv_parse_def o1 Let_def ..
  show ?thesis
  proof (cases "CHR '','' \<in> set (drop 3 out)")
    case True
    then have "str_find (drop 3 out) '','' = int (length (takeWhile (\<lambda>x. x \<noteq> CHR '','') (drop 3 out)))"
      by (simp only: str_find_char if_True)
    then show ?thesis
      unfolding p using True by (simp only: slice_zero_nat takeWhile_eq_take [symmetric] if_True)
  next
    case False
    then have "str_find (drop 3 out) '','' = - 1"
      by (simp only: str_find_char if_False)
    then show ?thesis
      unfolding p using False by (simp only: slice_zero_minus_one if_False)
  qed
qed

lemma get_device_inv_info_ok:
  assumes "env (trace w) (SendCommand ''sh inv'') = Inr out"
  shows "get_device_inv_info env w =
           (Inr (inv_parse out), w\<lparr>trace := trace w @ [SendCommand ''sh inv'']\<rparr>)"
  by (simp add: get_device_inv_info_def try_except_Error_def io_bind_def send_command_run
      io_return_def assms)

text \<open>
  Claim C9, as the code has it. When the output of \<open>sh inv\<close> does not contain the marker
  \<open>PID:\<close>, \<open>find\<close> answers \<open>-1\<close> and the extractor raises nothing: it returns the
  stripped text of the output from index 3 up to the first comma, or, when no comma
  follows index 3, up to but without the last character. This fragment is the text
  \<open>DEVICE INVENTORY FAILED\<close> only if the output itself contains that text.
\<close>

theorem C9_inventory_without_marker:
  assumes "env (trace w) (SendCommand ''sh inv'') = Inr out" and "\<not> sublist ''PID:'' out"
  shows "str_find out ''PID:'' = - 1
       \<and> fst (get_device_inv_info env w) =
           Inr (strip (if CHR '','' \<in> set (drop 3 out)
                       then takeWhile (\<lambda>c. c \<noteq> CHR '','') (drop 3 out)
                       else butlast (drop 3 out)))
       \<and> (\<not> sublist ''DEVICE INVENTORY FAILED'' out \<longrightarrow>
            fst (get_device_inv_info env w) \<noteq> Inr ''DEVICE INVENTORY FAILED'')"
proof -
  let ?frag = "if CHR '','' \<in> set (drop 3 out)
               then takeWhile (\<lambda>c. c \<noteq> CHR '','') (drop 3 out) else butlast (drop 3 out)"
  have r: "fst (get_device_inv_info env w) = Inr (strip ?frag)"
    using get_device_inv_info_ok [of env w out] assms(1) inv_parse_no_marker [OF assms(2)] by simp
  have "sublist ?frag (drop 3 out)" by simp
  then have "sublist ?frag out"
    by (rule sublist_order.order.trans) simp
  then have s: "sublist (strip ?frag) out"
    by (rule sublist_order.order.trans [OF sublist_strip])
  have "\<not> sublist ''DEVICE INVENTORY FAILED'' out \<Longrightarrow> strip ?frag \<noteq> ''DEVICE INVENTORY FAILED''"
    using s by metis
  then show ?thesis
    using r assms(2) by (simp add: str_find_none_iff)
qed

theorem C9_inventory_without_marker_witness:
  "fst (get_device_inv_info
          (scripted [(SendCommand ''sh inv'', Inr ''%    Incomplete command , try again'')]) world0)
     = Inr ''Incomplete command''
   \<and> fst (get_device_inv_info
          (scripted [(SendCommand ''sh inv'', Inr ''% Incomplete command.  '')]) world0)
     = Inr ''ncomplete command.''
   \<and> fst (get_device_inv_info
          (scripted [(SendCommand ''sh inv'', Inr ''%    Incomplete command , try again'')]) world0)
     \<noteq> Inr ''DEVICE INVENTORY FAILED''
   \<and> fst (get_device_inv_info
          (scripted [(SendCommand ''sh inv'', Inr ''% Incomplete command.  '')]) world0)
     \<noteq> Inr ''DEVICE INVENTORY FAILED''"
proof -
  let ?out1 = "''%    Incomplete command , try again''"
  let ?out2 = "''% Incomplete command.  ''"
  let ?env1 = "scripted [(SendCommand ''sh inv'', Inr ?out1)]"
  let ?env2 = "scripted [(SendCommand ''sh inv'', Inr ?out2)]"
  have a1: "?env1 (trace world0) (SendCommand ''sh inv'') = Inr ?out1"
    and a2: "?env2 (trace world0) (SendCommand ''sh inv'') = Inr ?out2"
    by (simp_all add: scripted_def)
  have b1: "\<not> sublist ''PID:'' ?out1" and b2: "\<not> sublist ''PID:'' ?out2"
    by code_simp+
  have c1: "\<not> sublist ''DEVICE INVENTORY FAILED'' ?out1"
    and c2: "\<not> sublist ''DEVICE INVENTORY FAILED'' ?out2"
    by code_simp+
  have s1: "strip (if CHR '','' \<in> set (drop 3 ?out1)
                   then takeWhile (\<lambda>c. c \<noteq> CHR '','') (drop 3 ?out1)
                   else butlast (drop 3 ?out1)) = ''Incomplete command''"
    and s2: "strip (if CHR '','' \<in> set (drop 3 ?out2)
                   then takeWhile (\<lambda>c. c \<noteq> CHR '','') (drop 3 ?out2)
                   else butlast (drop 3 ?out2)) = ''ncomplete command.''"
    by code_simp+
  note t1 = C9_inventory_without_marker [of ?env1 world0 ?out1, OF a1 b1]
  note t2 = C9_inventory_without_marker [of ?env2 world0 ?out2, OF a2 b2]
  have r1: "fst (get_device_inv_info ?env1 world0) = Inr ''Incomplete command''"
    using t1 [THEN conjunct2, THEN conjunct1] unfolding s1 .
  have r2: "fst (get_device_inv_info ?env2 world0) = Inr ''ncomplete command.''"
    using t2 [THEN conjunct2, THEN conjunct1] unfolding s2 .
  have n1: "fst (get_device_inv_info ?env1 world0) \<noteq> Inr ''DEVICE INVENTORY FAILED''"
    using t1 [THEN conjunct2, THEN conjunct2, THEN mp, OF c1] .
  have n2: "fst (get_device_inv_info ?env2 world0) \<noteq> Inr ''DEVICE INVENTORY FAILED''"
    using t2 [THEN conjunct2, THEN conjunct2, THEN mp, OF c2] .
  from r1 r2 n1 n2 show ?thesis by (intro conjI)
qed

text \<open>
  Claim C9 as stated: without the marker the result would never be the sentinel text and
  would always end at the first comma. An output that carries the sentinel text from
  index 3 up to a comma gives exactly that text back, and an output with no comma loses
  its last character.
\<close>

theorem C9_sentinel_text_counterexample:
  "str_find ''abcDEVICE INVENTORY FAILED, x'' ''PID:'' = - 1
   \<and> fst (get_device_inv_info
            (scripted [(SendCommand ''sh inv'', Inr ''abcDEVICE INVENTORY FAILED, x'')]) world0)
     = Inr ''DEVICE INVENTORY FAILED''
   \<and> str_find ''NAME: x'' ''PID:'' = - 1
   \<and> fst (get_device_inv_info (scripted [(SendCommand ''sh inv'', Inr ''NAME: x'')]) world0)
     = Inr ''E:''
   \<and> strip (drop 3 ''NAME: x'') = ''E: x''"
  by code_simp


section \<open>The CDP extractor\<close>

lemma count_loop:
  "foldl (\<lambda>n str1. if \<not> startswith str1 '' '' then n + 1 else n) a ls
     = a + int (length (filter (\<lambda>l. \<not> startswith l '' '') ls))"
  by (induction ls arbitrary: a) auto

lemma cdp_count_eq:
  "cdp_count output =
     int (length (filter (\<lambda>l. \<not> startswith l '' '') (splitlines (cdp_scanned output)))) - 1"
  by (simp add: cdp_count_def count_loop)

lemma get_device_cdp_info_off:
  assumes "env (trace w) (SendCommand ''sh cdp'') = Inr o1"
    and "sublist ''CDP is not enabled'' o1"
  shows "get_device_cdp_info env w =
           (Inr ''CDP is OFF'', w\<lparr>trace := trace w @ [SendCommand ''sh cdp'']\<rparr>)"
  using assms
  by (simp add: get_device_cdp_info_def try_except_Error_def io_bind_def send_command_run
      io_return_def str_find_neg_iff)

lemma get_device_cdp_info_on:
  assumes "env (trace w) (SendCommand ''sh cdp'') = Inr o1"
    and "\<not> sublist ''CDP is not enabled'' o1"
    and "env (trace w @ [SendCommand ''sh cdp'']) (SendCommand ''sh cdp nei'') = Inr o2"
  shows "get_device_cdp_info env w =
           (Inr (''CDP is ON, '' @ str_int (cdp_count o2) @ '' peers''),
            w\<lparr>trace := trace w @ [SendCommand ''sh cdp'', SendCommand ''sh cdp nei'']\<rparr>)"
  using assms
  by (simp add: get_device_cdp_info_def try_except_Error_def io_bind_def send_command_run
      io_return_def str_find_neg_iff)

lemma cdp_scanned_no_header:
  assumes "\<not> sublist ''Device ID'' o2"
  shows "cdp_scanned o2 = (if o2 = [] then [] else [last o2])"
proof -
  have "str_find o2 ''Device ID'' = - 1"
    using assms by (simp add: str_find_none_iff)
  then show ?thesis
    unfolding cdp_scanned_def by (simp only: slice_minus_one_to_end)
qed

lemma splitlines_space: "splitlines '' '' = ['' '']"
  by (simp add: splitlines_def is_linebreak_def)

text \<open>
  Claim C10. When the output of \<open>sh cdp\<close> does not contain \<open>CDP is not enabled\<close> and the
  output of \<open>sh cdp nei\<close> does not contain \<open>Device ID\<close>, the text that is scanned is the
  last character of the output alone, and if that character is a space the extractor
  reports \<open>-1\<close> peers.
\<close>

theorem C10_negative_peer_count:
  assumes "env (trace w) (SendCommand ''sh cdp'') = Inr o1"
    and "\<not> sublist ''CDP is not enabled'' o1"
    and "env (trace w @ [SendCommand ''sh cdp'']) (SendCommand ''sh cdp nei'') = Inr o2"
    and "\<not> sublist ''Device ID'' o2"
  shows "cdp_scanned o2 = (if o2 = [] then [] else [last o2])
       \<and> (o2 \<noteq> [] \<and> last o2 = CHR '' '' \<longrightarrow>
            fst (get_device_cdp_info env w) = Inr ''CDP is ON, -1 peers'')"
proof -
  have sc: "cdp_scanned o2 = (if o2 = [] then [] else [last o2])"
    by (rule cdp_scanned_no_header [OF assms(4)])
  have "cdp_count o2 = - 1" if "o2 \<noteq> []" "last o2 = CHR '' ''"
    using that by (simp add: cdp_count_eq sc splitlines_space startswith_def)
  then show ?thesis
    using sc get_device_cdp_info_on [of env w o1 o2] assms(1-3)
    by (simp add: str_int_minus_one)
qed

theorem C10_negative_peer_count_witness:
  "cdp_scanned ''% Invalid input '' = '' ''
   \<and> fst (get_device_cdp_info
         (scripted [(SendCommand ''sh cdp'', Inr ''Global CDP information''),
                    (SendCommand ''sh cdp nei'', Inr ''% Invalid input '')]) world0)
       = Inr ''CDP is ON, -1 peers''"
proof -
  let ?env = "scripted [(SendCommand ''sh cdp'', Inr ''Global CDP information''),
                        (SendCommand ''sh cdp nei'', Inr ''% Invalid input '')]"
  have h1: "?env (trace world0) (SendCommand ''sh cdp'') = Inr ''Global CDP information''"
    by (simp add: scripted_def)
  have h2: "\<not> sublist ''CDP is not enabled'' ''Global CDP information''"
    by code_simp
  have h3: "?env (trace world0 @ [SendCommand ''sh cdp'']) (SendCommand ''sh cdp nei'')
              = Inr ''% Invalid input ''"
    by (simp add: scripted_def)
  have h4: "\<not> sublist ''Device ID'' ''% Invalid input ''"
    by code_simp
  show ?thesis
    using C10_negative_peer_count
      [of ?env world0 "''Global CDP information''" "''% Invalid input ''", OF h1 h2 h3 h4]
    by simp
qed

section \<open>The NTP extractor\<close>

lemma str_find_found_iff: "str_find s sub \<noteq> - 1 \<longleftrightarrow> sublist sub s"
  by (simp add: str_find_none_iff)

lemma send_config_set_run:
  "send_config_set env c w = (env (trace w) (SendConfigSet c), w\<lparr>trace := trace w @ [SendConfigSet c]\<rparr>)"
  by (simp add: send_config_set_def invoke_def)

text \<open>
  Claim C6. When the output of the ping contains \<open>Success rate is 0\<close>, the result
  starts with \<open>NTP server not reachable, \<close> and the session receives the ping and the
  status query only, no configuration command. Otherwise it receives the ping, then the
  \<open>ntp server\<close> configuration command once, then the status query. The result ends with
  \<open>Clock is not sync\<close> when the status output contains \<open>Clock is unsynchronized\<close>, and
  with \<open>Clock is Sync\<close> otherwise.
\<close>

theorem C6_ntp_probe_and_sync:
  assumes "env (trace w) (SendCommand (''ping '' @ ntp)) = Inr o1"
  shows "(sublist ''Success rate is 0'' o1
          \<and> env (trace w @ [SendCommand (''ping '' @ ntp)])
                (SendCommand ''sh ntp status | i Clock is'') = Inr o3
          \<longrightarrow> getset_device_ntp_info env ntp w =
                (Inr (''NTP server not reachable, '' @
                      (if sublist ''Clock is unsynchronized'' o3
                       then ''Clock is not sync'' else ''Clock is Sync'')),
                 w\<lparr>trace := trace w @ [SendCommand (''ping '' @ ntp),
                                       SendCommand ''sh ntp status | i Clock is'']\<rparr>))
       \<and> (\<not> sublist ''Success rate is 0'' o1
          \<and> env (trace w @ [SendCommand (''ping '' @ ntp)])
                (SendConfigSet (''ntp server '' @ ntp)) = Inr o2
          \<and> env (trace w @ [SendCommand (''ping '' @ ntp), SendConfigSet (''ntp server '' @ ntp)])
                (SendCommand ''sh ntp status | i Clock is'') = Inr o3
          \<longrightarrow> getset_device_ntp_info env ntp w =
                (Inr (if sublist ''Clock is unsynchronized'' o3
                      then ''Clock is not sync'' else ''Clock is Sync''),
                 w\<lparr>trace := trace w @ [SendCommand (''ping '' @ ntp),
                                       SendConfigSet (''ntp server '' @ ntp),
                                       SendCommand ''sh ntp status | i Clock is'']\<rparr>))"
  using assms
  by (simp add: getset_device_ntp_info_def try_except_Error_def io_bind_def send_command_run
      send_config_set_run io_return_def str_find_found_iff)

theorem C6_ntp_probe_and_sync_witness:
  "getset_device_ntp_info
     (scripted [(SendCommand ''ping 10.0.0.1'', Inr ''Success rate is 0 percent (0/5)''),
                (SendCommand ''sh ntp status | i Clock is'', Inr ''Clock is unsynchronized, stratum 16'')])
     ''10.0.0.1'' world0
   = (Inr ''NTP server not reachable, Clock is not sync'',
      world0\<lparr>trace := [SendCommand ''ping 10.0.0.1'', SendCommand ''sh ntp status | i Clock is'']\<rparr>)
   \<and> getset_device_ntp_info
     (scripted [(SendCommand ''ping 10.0.0.1'', Inr ''Success rate is 100 percent (5/5)''),
                (SendCommand ''sh ntp status | i Clock is'', Inr ''Clock is synchronized, stratum 3'')])
     ''10.0.0.1'' world0
   = (Inr ''Clock is Sync'',
      world0\<lparr>trace := [SendCommand ''ping 10.0.0.1'', SendConfigSet ''ntp server 10.0.0.1'',
                         SendCommand ''sh ntp status | i Clock is'']\<rparr>)"
proof -
  let ?a = "scripted [(SendCommand ''ping 10.0.0.1'', Inr ''Success rate is 0 percent (0/5)''),
                (SendCommand ''sh ntp status | i Clock is'', Inr ''Clock is unsynchronized, stratum 16'')]"
  let ?b = "scripted [(SendCommand ''ping 10.0.0.1'', Inr ''Success rate is 100 percent (5/5)''),
                (SendCommand ''sh ntp status | i Clock is'', Inr ''Clock is synchronized, stratum 3'')]"
  have a1: "?a (trace world0) (SendCommand (''ping '' @ ''10.0.0.1'')) = Inr ''Success rate is 0 percent (0/5)''"
    by (simp add: scripted_def)
  have a2: "sublist ''Success rate is 0'' ''Success rate is 0 percent (0/5)''"
    by code_simp
  have a3: "?a (trace world0 @ [SendCommand (''ping '' @ ''10.0.0.1'')])
              (SendCommand ''sh ntp status | i Clock is'') = Inr ''Clock is unsynchronized, stratum 16''"
    by (simp add: scripted_def)
  have a4: "sublist ''Clock is unsynchronized'' ''Clock is unsynchronized, stratum 16''"
    by code_simp
  have b1: "?b (trace world0) (SendCommand (''ping '' @ ''10.0.0.1'')) = Inr ''Success rate is 100 percent (5/5)''"
    by (simp add: scripted_def)
  have b2: "\<not> sublist ''Success rate is 0'' ''Success rate is 100 percent (5/5)''"
    by code_simp
  have b3: "?b (trace world0 @ [SendCommand (''ping '' @ ''10.0.0.1'')])
              (SendConfigSet (''ntp server '' @ ''10.0.0.1'')) = Inr []"
    by (simp add: scripted_def)
  have b4: "?b (trace world0 @ [SendCommand (''ping '' @ ''10.0.0.1''), SendConfigSet (''ntp server '' @ ''10.0.0.1'')])
              (SendCommand ''sh ntp status | i Clock is'') = Inr ''Clock is synchronized, stratum 3''"
    by (simp add: scripted_def)
  have b5: "\<not> sublist ''Clock is unsynchronized'' ''Clock is synchronized, stratum 3''"
    by code_simp
  have A: "getset_device_ntp_info ?a ''10.0.0.1'' world0
     = (Inr ''NTP server not reachable, Clock is not sync'',
        world0\<lparr>trace := [SendCommand ''ping 10.0.0.1'', SendCommand ''sh ntp status | i Clock is'']\<rparr>)"
    using C6_ntp_probe_and_sync [where env = ?a and w = world0 and ntp = "''10.0.0.1''"
        and ?o1.0 = "''Success rate is 0 percent (0/5)''"
        and ?o3.0 = "''Clock is unsynchronized, stratum 16''", OF a1] a2 a3 a4
    by (simp add: world0_def)
  have B: "getset_device_ntp_info ?b ''10.0.0.1'' world0
     = (Inr ''Clock is Sync'',
      world0\<lparr>trace := [SendCommand ''ping 10.0.0.1'', SendConfigSet ''ntp server 10.0.0.1'',
                         SendCommand ''sh ntp status | i Clock is'']\<rparr>)"
    using C6_ntp_probe_and_sync [where env = ?b and w = world0 and ntp = "''10.0.0.1''"
        and ?o1.0 = "''Success rate is 100 percent (5/5)''" and ?o2.0 = "[]"
        and ?o3.0 = "''Clock is synchronized, stratum 3''", OF b1] b2 b3 b4 b5
    by (simp add: world0_def)
  show ?thesis using A B by simp
qed


section \<open>The version extractor\<close>

lemma str_split_not_Nil: "str_split sep s \<noteq> []"
  by (induction s) (auto split: list.splits)

lemma str_split_no_sep: "sep \<notin> set s \<Longrightarrow> str_split sep s = [s]"
  by (induction s) auto

lemma str_split_sep_length: "sep \<in> set s \<Longrightarrow> 2 \<le> length (str_split sep s)"
proof (induction s)
  case Nil
  then show ?case by simp
next
  case (Cons c cs)
  show ?case
  proof (cases "c = sep")
    case True
    then show ?thesis
      using str_split_not_Nil [of sep cs] by (cases "str_split sep cs") auto
  next
    case False
    then have "sep \<in> set cs" using Cons.prems by simp
    then have "2 \<le> length (str_split sep cs)" by (rule Cons.IH)
    then show ?thesis using False by (cases "str_split sep cs") auto
  qed
qed

lemma last_str_split:
  "last (str_split sep s) = rev (takeWhile (\<lambda>c. c \<noteq> sep) (rev s))"
proof (induction s)
  case Nil
  show ?case by simp
next
  case (Cons c cs)
  show ?case
  proof (cases "c = sep")
    case True
    then show ?thesis
      using Cons.IH str_split_not_Nil [of sep cs] by (simp add: takeWhile_append)
  next
    case False
    show ?thesis
    proof (cases "sep \<in> set cs")
      case True
      then have "2 \<le> length (str_split sep cs)" by (rule str_split_sep_length)
      then obtain x y ys where "str_split sep cs = x # y # ys"
        by (cases "str_split sep cs"; cases "tl (str_split sep cs)") auto
      then show ?thesis
        using Cons.IH False True by (auto simp: takeWhile_append)
    next
      case False
      then show ?thesis
        using \<open>c \<noteq> sep\<close> by (simp add: str_split_no_sep takeWhile_append)
    qed
  qed
qed

lemma ver_file_name_eq:
  "ver_file_name text =
     rev (takeWhile (\<lambda>c. c \<noteq> CHR ''/'') (rev (slice_from text (str_find text '':'' + 1))))"
proof -
  let ?items = "str_split CHR ''/'' (slice_from text (str_find text '':'' + 1))"
  have "?items ! (length ?items - 1) = last ?items"
    using str_split_not_Nil [of "CHR ''/''"] by (simp add: last_conv_nth)
  then show ?thesis
    unfolding ver_file_name_def Let_def by (simp only: last_str_split)
qed

lemma after_first_colon:
  assumes "text = pre @ '':'' @ post" and "CHR '':'' \<notin> set pre"
  shows "slice_from text (str_find text '':'' + 1) = post"
proof -
  have "takeWhile (\<lambda>x. x \<noteq> CHR '':'') text = pre"
    using assms by (simp add: takeWhile_append)
  then have "str_find text '':'' + 1 = int (Suc (length pre))"
    using assms(1) by (simp add: str_find_char)
  then have "slice_from text (str_find text '':'' + 1) = drop (Suc (length pre)) text"
    by (simp only: slice_from_nat)
  then show ?thesis using assms(1) by simp
qed

lemma get_device_ver_info_ok:
  assumes "env (trace w) (SendCommand ''sh ver'') = Inr out"
  shows "get_device_ver_info env w =
           (Inr (ver_parse out), w\<lparr>trace := trace w @ [SendCommand ''sh ver'']\<rparr>)"
  by (simp add: get_device_ver_info_def try_except_Error_def io_bind_def send_command_run
      io_return_def assms)

text \<open>
  Claim C3, as the code has it. When the text derived from the \<open>System image file is\<close>
  line contains a colon, the extractor keeps what follows the first colon of that text
  (line 119 uses \<open>find\<close>), and of that the part after the last \<open>/\<close>; the result is this
  name followed by \<open> | PE \<close> or \<open> | NPE\<close>.
\<close>

theorem C3_after_first_colon:
  assumes "env (trace w) (SendCommand ''sh ver'') = Inr out"
    and "ver_image_text out = pre @ '':'' @ post" and "CHR '':'' \<notin> set pre"
  shows "ver_file_name (ver_image_text out) = rev (takeWhile (\<lambda>c. c \<noteq> CHR ''/'') (rev post))
       \<and> (CHR ''/'' \<notin> set post \<longrightarrow> ver_file_name (ver_image_text out) = post)
       \<and> (fst (get_device_ver_info env w) =
             Inr (rev (takeWhile (\<lambda>c. c \<noteq> CHR ''/'') (rev post)) @ '' | PE '')
          \<or> fst (get_device_ver_info env w) =
             Inr (rev (takeWhile (\<lambda>c. c \<noteq> CHR ''/'') (rev post)) @ '' | NPE''))"
proof -
  have n: "ver_file_name (ver_image_text out) = rev (takeWhile (\<lambda>c. c \<noteq> CHR ''/'') (rev post))"
    unfolding ver_file_name_eq after_first_colon [OF assms(2,3)] ..
  have m: "CHR ''/'' \<notin> set post \<longrightarrow> ver_file_name (ver_image_text out) = post"
  proof
    assume "CHR ''/'' \<notin> set post"
    then have "\<forall>x\<in>set (rev post). x \<noteq> CHR ''/''" by auto
    then have t: "takeWhile (\<lambda>c. c \<noteq> CHR ''/'') (rev post) = rev post"
      by (rule takeWhile_eq_all_conv [THEN iffD2])
    show "ver_file_name (ver_image_text out) = post"
      unfolding n t by simp
  qed
  have "fst (get_device_ver_info env w) = Inr (ver_parse out)"
    using get_device_ver_info_ok [of env w out] assms(1) by simp
  then show ?thesis
    using n m by (simp add: ver_parse_def Let_def)
qed

theorem C3_after_first_colon_witness:
  \<open>ver_file_name (ver_image_text ''System image file is "flash:c2900:v1.bin"\<newline>'') = ''c2900:v1''\<close>
proof -
  let ?out = \<open>''System image file is "flash:c2900:v1.bin"\<newline>''\<close>
  let ?env = "scripted [(SendCommand ''sh ver'', Inr ?out)]"
  have h1: "?env (trace world0) (SendCommand ''sh ver'') = Inr ?out"
    by (simp add: scripted_def)
  have h2: "ver_image_text ?out = ''flash'' @ '':'' @ ''c2900:v1''"
    by code_simp
  have h3: "CHR '':'' \<notin> set ''flash''"
    by simp
  show ?thesis
    using C3_after_first_colon [of ?env world0 ?out "''flash''" "''c2900:v1''", OF h1 h2 h3]
    by simp
qed

text \<open>
  Claim C3 as stated, at an input with two colons in the derived text: the name that is
  kept starts after the first colon, so it is not the portion after the last one (the last
  item when the text is split at the colons).
\<close>

theorem C3_last_colon_counterexample:
  \<open>ver_image_text ''System image file is "flash:c2900:v1.bin"\<newline>'' = ''flash:c2900:v1''
   \<and> last (str_split CHR '':'' ''flash:c2900:v1'') = ''v1''
   \<and> fst (get_device_ver_info
           (scripted [(SendCommand ''sh ver'', Inr ''System image file is "flash:c2900:v1.bin"\<newline>'')])
           world0) = Inr ''c2900:v1 | PE ''
   \<and> fst (get_device_ver_info
           (scripted [(SendCommand ''sh ver'', Inr ''System image file is "flash:c2900:v1.bin"\<newline>'')])
           world0) \<noteq> Inr (''v1'' @ '' | PE '')\<close>
  by code_simp

lemma lower_char_npe:
  "x \<in> {CHR ''n'', CHR ''N''} \<Longrightarrow> lower_char x = CHR ''n''"
  "y \<in> {CHR ''p'', CHR ''P''} \<Longrightarrow> lower_char y = CHR ''p''"
  "z \<in> {CHR ''e'', CHR ''E''} \<Longrightarrow> lower_char z = CHR ''e''"
  by (auto simp: lower_char_def)

lemma ver_parse_example:
  \<open>ver_parse ''System image file is "flash:cat3k_caa-universalk9.SPA.16.06.04.bin"''
     = ''cat3k_caa-universalk9.SPA.16.06.04 | PE ''\<close>
  by code_simp

text \<open>
  Claim C7. The version extractor maps the output
  \<open>System image file is "flash:cat3k_caa-universalk9.SPA.16.06.04.bin"\<close> to
  \<open>cat3k_caa-universalk9.SPA.16.06.04 | PE \<close>, and whenever the derived file name contains
  the letters n, p, e in a row, each in either case, the result is the name followed by
  \<open> | NPE\<close>.
\<close>

theorem C7_version_parsing:
  assumes "env (trace w) (SendCommand ''sh ver'') = Inr out"
  shows \<open>(out = ''System image file is "flash:cat3k_caa-universalk9.SPA.16.06.04.bin"'' \<longrightarrow>
            fst (get_device_ver_info env w) = Inr ''cat3k_caa-universalk9.SPA.16.06.04 | PE '')
       \<and> (\<forall>a x y z b.
            ver_file_name (ver_image_text out) = a @ [x, y, z] @ b
            \<and> x \<in> {CHR ''n'', CHR ''N''} \<and> y \<in> {CHR ''p'', CHR ''P''} \<and> z \<in> {CHR ''e'', CHR ''E''}
            \<longrightarrow> fst (get_device_ver_info env w) =
                  Inr (ver_file_name (ver_image_text out) @ '' | NPE''))\<close>
proof -
  have r: "fst (get_device_ver_info env w) = Inr (ver_parse out)"
    using get_device_ver_info_ok [of env w out] assms by simp
  have npe: "ver_parse out = ver_file_name (ver_image_text out) @ '' | NPE''"
    if "ver_file_name (ver_image_text out) = a @ [x, y, z] @ b"
      and "x \<in> {CHR ''n'', CHR ''N''}" "y \<in> {CHR ''p'', CHR ''P''}" "z \<in> {CHR ''e'', CHR ''E''}"
    for a x y z b
  proof -
    have "str_lower (ver_file_name (ver_image_text out)) = str_lower a @ ''npe'' @ str_lower b"
      using that by (simp add: str_lower_def lower_char_npe)
    then have "sublist ''npe'' (str_lower (ver_file_name (ver_image_text out)))"
      by (simp only: sublist_appendI)
    then show ?thesis
      by (simp add: ver_parse_def Let_def str_find_none_iff)
  qed
  show ?thesis
    unfolding r using ver_parse_example npe by blast
qed

theorem C7_version_parsing_witness:
  \<open>fst (get_device_ver_info
          (scripted [(SendCommand ''sh ver'',
                      Inr ''System image file is "flash:cat3k_caa-universalk9.SPA.16.06.04.bin"'')])
          world0) = Inr ''cat3k_caa-universalk9.SPA.16.06.04 | PE ''
   \<and> fst (get_device_ver_info
          (scripted [(SendCommand ''sh ver'',
                      Inr ''System image file is "flash:/c3900-universalk9_NPE-mz.SPA.bin"\<newline>'')])
          world0) = Inr ''c3900-universalk9_NPE-mz.SPA | NPE''\<close>
proof -
  let ?o1 = \<open>''System image file is "flash:cat3k_caa-universalk9.SPA.16.06.04.bin"''\<close>
  let ?o2 = \<open>''System image file is "flash:/c3900-universalk9_NPE-mz.SPA.bin"\<newline>''\<close>
  let ?e1 = "scripted [(SendCommand ''sh ver'', Inr ?o1)]"
  let ?e2 = "scripted [(SendCommand ''sh ver'', Inr ?o2)]"
  have h1: "?e1 (trace world0) (SendCommand ''sh ver'') = Inr ?o1"
    by (simp add: scripted_def)
  have h2: "?e2 (trace world0) (SendCommand ''sh ver'') = Inr ?o2"
    by (simp add: scripted_def)
  have n: "ver_file_name (ver_image_text ?o2) = ''c3900-universalk9_'' @ [CHR ''N'', CHR ''P'', CHR ''E''] @ ''-mz.SPA''"
    by code_simp
  have A: "fst (get_device_ver_info ?e1 world0) = Inr ''cat3k_caa-universalk9.SPA.16.06.04 | PE ''"
    using C7_version_parsing [of ?e1 world0 ?o1, OF h1] by blast
  have "fst (get_device_ver_info ?e2 world0) = Inr (ver_file_name (ver_image_text ?o2) @ '' | NPE'')"
    using C7_version_parsing [of ?e2 world0 ?o2, OF h2] n by blast
  then have B: "fst (get_device_ver_info ?e2 world0) = Inr ''c3900-universalk9_NPE-mz.SPA | NPE''"
    unfolding n by simp
  show ?thesis using A B by simp
qed

section \<open>The backup file path\<close>

text \<open>
  The two joins at the backup root, with the values CPython 3.11 computes for
  \<open>posixpath.join\<close> and \<open>ntpath.join\<close>: plain names, names that start or end with a
  separator, names with a drive letter, UNC names and the empty name.
\<close>

lemma posixpath_join_examples:
  "posixpath_join ''C:/Temp/_CiscoDevNet/backup'' [''R1''] = ''C:/Temp/_CiscoDevNet/backup/R1''
   \<and> posixpath_join ''C:/Temp/_CiscoDevNet/backup'' [''R1'', ''R1-T.txt''] = ''C:/Temp/_CiscoDevNet/backup/R1/R1-T.txt''
   \<and> posixpath_join ''C:/Temp/_CiscoDevNet/backup'' [''/etc'', ''/etc-T.txt''] = ''/etc-T.txt''
   \<and> posixpath_join ''C:/Temp/_CiscoDevNet/backup'' [''R1/'', ''R1/-T.txt''] = ''C:/Temp/_CiscoDevNet/backup/R1/R1/-T.txt''
   \<and> posixpath_join ''C:/Temp/_CiscoDevNet/backup'' [[], ''-T.txt''] = ''C:/Temp/_CiscoDevNet/backup/-T.txt''
   \<and> posixpath_join [] [''R1''] = ''R1''
   \<and> posixpath_join ''C:/Temp/_CiscoDevNet/backup'' [''D:R1'', ''D:R1-T.txt''] = ''C:/Temp/_CiscoDevNet/backup/D:R1/D:R1-T.txt''"
  by code_simp

lemma ntpath_join_examples:
  "ntpath_join ''C:/Temp/_CiscoDevNet/backup'' [''R1''] = (''C:/Temp/_CiscoDevNet/backup'' @ [CHR 0x5C] @ ''R1'')
   \<and> ntpath_join ''C:/Temp/_CiscoDevNet/backup'' [''R1'', ''R1-T.txt''] = (''C:/Temp/_CiscoDevNet/backup'' @ [CHR 0x5C] @ ''R1'' @ [CHR 0x5C] @ ''R1-T.txt'')
   \<and> ntpath_join ''C:/Temp/_CiscoDevNet/backup'' [''/etc'', ''/etc-T.txt''] = ''C:/etc-T.txt''
   \<and> ntpath_join ''C:/Temp/_CiscoDevNet/backup'' [''D:R1'', ''D:R1-T.txt''] = (''D:R1'' @ [CHR 0x5C] @ ''R1-T.txt'')
   \<and> ntpath_join ''C:/Temp/_CiscoDevNet/backup'' [''c:R1'', ''c:R1-T.txt''] = (''c:/Temp/_CiscoDevNet/backup'' @ [CHR 0x5C] @ ''R1'' @ [CHR 0x5C] @ ''R1-T.txt'')
   \<and> ntpath_join ''C:/Temp/_CiscoDevNet/backup'' [([CHR 0x5C] @ ''R1''), ([CHR 0x5C] @ ''R1-T.txt'')] = (''C:'' @ [CHR 0x5C] @ ''R1-T.txt'')
   \<and> ntpath_join ''C:/Temp/_CiscoDevNet/backup'' [''R1/'', ''R1/-T.txt''] = (''C:/Temp/_CiscoDevNet/backup'' @ [CHR 0x5C] @ ''R1/R1/-T.txt'')
   \<and> ntpath_join ''C:/Temp/_CiscoDevNet/backup'' [[], ''-T.txt''] = (''C:/Temp/_CiscoDevNet/backup'' @ [CHR 0x5C] @ ''-T.txt'')
   \<and> ntpath_join ''C:/Temp/_CiscoDevNet/backup'' [''//srv/share/x'', ''//srv/share/x-T.txt''] = ''//srv/share/x-T.txt''
   \<and> ntpath_join ''C:/Temp/_CiscoDevNet/backup'' [([CHR 0x5C] @ [CHR 0x5C] @ ''?'' @ [CHR 0x5C] @ ''UNC'' @ [CHR 0x5C] @ ''srv'' @ [CHR 0x5C] @ ''share''), ''y''] = ([CHR 0x5C] @ [CHR 0x5C] @ ''?'' @ [CHR 0x5C] @ ''UNC'' @ [CHR 0x5C] @ ''srv'' @ [CHR 0x5C] @ ''share'' @ [CHR 0x5C] @ ''y'')
   \<and> ntpath_join ([CHR 0x5C] @ [CHR 0x5C] @ ''srv'' @ [CHR 0x5C] @ ''share'') [''R1''] = ([CHR 0x5C] @ [CHR 0x5C] @ ''srv'' @ [CHR 0x5C] @ ''share'' @ [CHR 0x5C] @ ''R1'')
   \<and> ntpath_join ''C:/Temp/_CiscoDevNet/backup'' [''R'', ''R-T.txt''] = (''C:/Temp/_CiscoDevNet/backup'' @ [CHR 0x5C] @ ''R'' @ [CHR 0x5C] @ ''R-T.txt'')
   \<and> ntpath_join [] [''R1''] = ''R1''
   \<and> ntpath_join (''C:/Temp/_CiscoDevNet/backup'' @ [CHR 0x5C]) [''R1''] = (''C:/Temp/_CiscoDevNet/backup'' @ [CHR 0x5C] @ ''R1'')"
  by code_simp

text \<open>On POSIX: a hostname that does not start with the separator is appended.\<close>

lemma startswith_slash: "startswith b ''/'' \<longleftrightarrow> b \<noteq> [] \<and> hd b = CHR ''/''"
  by (cases b) (auto simp: startswith_def)

lemma endswith_slash: "endswith p ''/'' \<longleftrightarrow> p \<noteq> [] \<and> last p = CHR ''/''"
  by (cases p rule: rev_cases) (auto simp: endswith_def)

lemma backup_dir_not_slash: "\<not> endswith BACKUP_DIR_PATH ''/''" "BACKUP_DIR_PATH \<noteq> []"
  by (simp_all add: endswith_slash BACKUP_DIR_PATH_def)

lemma posix_join_hostname:
  assumes "hostname \<noteq> []" and "hd hostname \<noteq> CHR ''/''"
  shows "posixpath_join BACKUP_DIR_PATH [hostname] = BACKUP_DIR_PATH @ ''/'' @ hostname"
  using assms backup_dir_not_slash by (simp add: startswith_slash)

lemma posix_join_backup_file:
  assumes "hostname \<noteq> []" and "hd hostname \<noteq> CHR ''/''" and "last hostname \<noteq> CHR ''/''"
  shows "posixpath_join BACKUP_DIR_PATH [hostname, hostname @ ''-'' @ timestamp @ ''.txt'']
         = BACKUP_DIR_PATH @ ''/'' @ hostname @ ''/'' @ hostname @ ''-'' @ timestamp @ ''.txt''"
  using assms backup_dir_not_slash by (simp add: startswith_slash endswith_slash)

text \<open>On Windows: a component without drive that does not start with a separator.\<close>

lemma nt_splitdrive_plain:
  assumes "p \<noteq> []" and "\<not> is_nt_sep (hd p)" and "take 1 (drop 1 p) \<noteq> '':''"
  shows "nt_splitdrive p = ([], p)"
proof (cases p)
  case Nil
  then show ?thesis using assms(1) by simp
next
  case (Cons a q)
  note p = Cons
  show ?thesis
  proof (cases q)
    case Nil
    then show ?thesis using p by (simp add: nt_splitdrive_def)
  next
    case (Cons b r)
    have a: "a \<noteq> CHR 0x5C" "a \<noteq> CHR ''/''"
      using assms(2) p by (auto simp: is_nt_sep_def)
    have b: "b \<noteq> CHR '':''"
      using assms(3) p Cons by simp
    show ?thesis
      using a b unfolding p Cons
      by (simp add: nt_splitdrive_def slice_def clamp_index_def Let_def)
  qed
qed

lemma nt_splitdrive_backup_dir:
  "nt_splitdrive BACKUP_DIR_PATH = (''C:'', ''/Temp/_CiscoDevNet/backup'')"
  by code_simp

lemma nt_join_hostname:
  assumes "hostname \<noteq> []" and "\<not> is_nt_sep (hd hostname)"
    and "take 1 (drop 1 hostname) \<noteq> '':''"
  shows "ntpath_join BACKUP_DIR_PATH [hostname] = BACKUP_DIR_PATH @ [CHR 0x5C] @ hostname"
proof -
  have "ntpath_join BACKUP_DIR_PATH [hostname]
        = ''C:'' @ ''/Temp/_CiscoDevNet/backup'' @ [CHR 0x5C] @ hostname"
    using assms
    by (simp add: ntpath_join_def nt_splitdrive_backup_dir nt_splitdrive_plain is_nt_sep_def)
  then show ?thesis by (simp add: BACKUP_DIR_PATH_def)
qed

lemma backup_file_name_plain:
  assumes "hostname \<noteq> []" and "\<not> is_nt_sep (hd hostname)"
    and "take 1 (drop 1 hostname) \<noteq> '':''"
  shows "nt_splitdrive (hostname @ CHR ''-'' # timestamp @ ''.txt'')
         = ([], hostname @ CHR ''-'' # timestamp @ ''.txt'')"
proof (rule nt_splitdrive_plain)
  show "hostname @ CHR ''-'' # timestamp @ ''.txt'' \<noteq> []" by simp
  show "\<not> is_nt_sep (hd (hostname @ CHR ''-'' # timestamp @ ''.txt''))"
    using assms(1,2) by simp
  show "take 1 (drop 1 (hostname @ CHR ''-'' # timestamp @ ''.txt'')) \<noteq> '':''"
  proof (cases hostname)
    case Nil
    then show ?thesis using assms(1) by simp
  next
    case (Cons a q)
    then show ?thesis using assms(3) by (cases q) simp_all
  qed
qed

lemma nt_join_backup_file:
  assumes "hostname \<noteq> []" and "\<not> is_nt_sep (hd hostname)"
    and "\<not> is_nt_sep (last hostname)" and "take 1 (drop 1 hostname) \<noteq> '':''"
  shows "ntpath_join BACKUP_DIR_PATH [hostname, hostname @ ''-'' @ timestamp @ ''.txt'']
         = BACKUP_DIR_PATH @ [CHR 0x5C] @ hostname @ [CHR 0x5C]
           @ hostname @ ''-'' @ timestamp @ ''.txt''"
proof -
  have "ntpath_join BACKUP_DIR_PATH [hostname, hostname @ ''-'' @ timestamp @ ''.txt'']
        = ''C:'' @ ''/Temp/_CiscoDevNet/backup'' @ [CHR 0x5C] @ hostname @ [CHR 0x5C]
          @ hostname @ ''-'' @ timestamp @ ''.txt''"
    using assms
    by (simp add: ntpath_join_def nt_splitdrive_backup_dir nt_splitdrive_plain
        backup_file_name_plain is_nt_sep_def)
  then show ?thesis by (simp add: BACKUP_DIR_PATH_def)
qed

text \<open>
  What one computation does: it asks once whether the directory exists, invokes
  \<open>os.makedirs\<close> when the answer is not \<open>True\<close>, and joins the three parts.
\<close>

lemma get_backup_file_path_run:
  "get_backup_file_path env hostname timestamp w =
     (if env (trace w) (PathExists (path_join (os_name w) BACKUP_DIR_PATH [hostname])) = Inr ''True''
      then (Inr (path_join (os_name w) BACKUP_DIR_PATH
                   [hostname, hostname @ ''-'' @ timestamp @ ''.txt'']), w)
      else (case env (trace w) (MakeDirs (path_join (os_name w) BACKUP_DIR_PATH [hostname])) of
              Inl e \<Rightarrow>
                (Inl e, w\<lparr>trace := trace w @ [MakeDirs (path_join (os_name w) BACKUP_DIR_PATH [hostname])]\<rparr>)
            | Inr _ \<Rightarrow>
                (Inr (path_join (os_name w) BACKUP_DIR_PATH
                        [hostname, hostname @ ''-'' @ timestamp @ ''.txt'']),
                 w\<lparr>trace := trace w @ [MakeDirs (path_join (os_name w) BACKUP_DIR_PATH [hostname])]\<rparr>)))"
  by (simp add: get_backup_file_path_def io_bind_def os_path_join_def os_path_exists_def
      os_makedirs_def io_return_def split: sum.splits)

lemma get_backup_file_path_returned:
  assumes "get_backup_file_path env hostname timestamp w = (Inr p, w1)"
  shows "p = path_join (os_name w) BACKUP_DIR_PATH [hostname, hostname @ ''-'' @ timestamp @ ''.txt'']"
    and "trace w1 = trace w @
           (if env (trace w) (PathExists (path_join (os_name w) BACKUP_DIR_PATH [hostname])) = Inr ''True''
            then [] else [MakeDirs (path_join (os_name w) BACKUP_DIR_PATH [hostname])])"
    and "os_name w1 = os_name w"
  using assms unfolding get_backup_file_path_run
  by (auto split: if_splits sum.splits)

text \<open>
  Claim C8, as the code has it. The path is built by \<open>os.path.join\<close>, so its shape depends
  on the platform. Under \<open>posixpath\<close>, for a hostname that is not empty and neither starts
  nor ends with \<open>/\<close>, the path returned is
  \<open><backup-root>/<hostname>/<hostname>-<timestamp>.txt\<close>. Under \<open>ntpath\<close>, which is
  \<open>os.path\<close> on the platform of the script's drive-letter constants, for a hostname that is
  not empty, neither starts nor ends with \<open>/\<close> or a backslash and has no colon as its
  second character, the path returned is the backup root, a backslash, the hostname, a
  backslash and \<open><hostname>-<timestamp>.txt\<close>. On either platform and for every hostname:
  the computation returns whenever the directory is reported present or \<open>os.makedirs\<close>
  succeeds; a computation that returns has invoked \<open>os.makedirs\<close> once if the directory
  was reported absent and not at all otherwise; and when the file system then reports the
  directory as present, the next computation for the same hostname returns and leaves the
  world as it is: the directory is created once.
\<close>

theorem C8_backup_path:
  "(os_name w = Posix \<and> hostname \<noteq> [] \<and> hd hostname \<noteq> CHR ''/'' \<and> last hostname \<noteq> CHR ''/''
      \<longrightarrow> (\<forall>p w1. get_backup_file_path env hostname timestamp w = (Inr p, w1) \<longrightarrow>
             p = BACKUP_DIR_PATH @ ''/'' @ hostname @ ''/'' @ hostname @ ''-'' @ timestamp @ ''.txt''))
   \<and> (os_name w = Nt \<and> hostname \<noteq> [] \<and> \<not> is_nt_sep (hd hostname) \<and> \<not> is_nt_sep (last hostname)
        \<and> take 1 (drop 1 hostname) \<noteq> '':''
      \<longrightarrow> (\<forall>p w1. get_backup_file_path env hostname timestamp w = (Inr p, w1) \<longrightarrow>
             p = BACKUP_DIR_PATH @ [CHR 0x5C] @ hostname @ [CHR 0x5C]
                 @ hostname @ ''-'' @ timestamp @ ''.txt''))
   \<and> (env (trace w) (PathExists (path_join (os_name w) BACKUP_DIR_PATH [hostname])) = Inr ''True''
        \<or> (\<exists>s. env (trace w) (MakeDirs (path_join (os_name w) BACKUP_DIR_PATH [hostname])) = Inr s)
      \<longrightarrow> (\<exists>p w1. get_backup_file_path env hostname timestamp w = (Inr p, w1)))
   \<and> (\<forall>p w1. get_backup_file_path env hostname timestamp w = (Inr p, w1) \<longrightarrow>
         trace w1 = trace w @
           (if env (trace w) (PathExists (path_join (os_name w) BACKUP_DIR_PATH [hostname])) = Inr ''True''
            then [] else [MakeDirs (path_join (os_name w) BACKUP_DIR_PATH [hostname])])
       \<and> (env (trace w1) (PathExists (path_join (os_name w) BACKUP_DIR_PATH [hostname])) = Inr ''True''
            \<longrightarrow> (\<exists>p'. get_backup_file_path env hostname timestamp' w1 = (Inr p', w1))))"
proof (intro conjI impI allI)
  fix p w1
  assume h: "os_name w = Posix \<and> hostname \<noteq> [] \<and> hd hostname \<noteq> CHR ''/'' \<and> last hostname \<noteq> CHR ''/''"
    and r: "get_backup_file_path env hostname timestamp w = (Inr p, w1)"
  have "p = posixpath_join BACKUP_DIR_PATH [hostname, hostname @ ''-'' @ timestamp @ ''.txt'']"
    using get_backup_file_path_returned(1) [OF r] h by (simp add: path_join_def)
  then show "p = BACKUP_DIR_PATH @ ''/'' @ hostname @ ''/'' @ hostname @ ''-'' @ timestamp @ ''.txt''"
    using h posix_join_backup_file [of hostname timestamp] by simp
next
  fix p w1
  assume h: "os_name w = Nt \<and> hostname \<noteq> [] \<and> \<not> is_nt_sep (hd hostname) \<and> \<not> is_nt_sep (last hostname)
        \<and> take 1 (drop 1 hostname) \<noteq> '':''"
    and r: "get_backup_file_path env hostname timestamp w = (Inr p, w1)"
  have "p = ntpath_join BACKUP_DIR_PATH [hostname, hostname @ ''-'' @ timestamp @ ''.txt'']"
    using get_backup_file_path_returned(1) [OF r] h by (simp add: path_join_def)
  then show "p = BACKUP_DIR_PATH @ [CHR 0x5C] @ hostname @ [CHR 0x5C]
                 @ hostname @ ''-'' @ timestamp @ ''.txt''"
    using h nt_join_backup_file [of hostname timestamp] by simp
next
  assume "env (trace w) (PathExists (path_join (os_name w) BACKUP_DIR_PATH [hostname])) = Inr ''True''
        \<or> (\<exists>s. env (trace w) (MakeDirs (path_join (os_name w) BACKUP_DIR_PATH [hostname])) = Inr s)"
  then show "\<exists>p w1. get_backup_file_path env hostname timestamp w = (Inr p, w1)"
    unfolding get_backup_file_path_run by auto
next
  fix p w1
  assume r: "get_backup_file_path env hostname timestamp w = (Inr p, w1)"
  show "trace w1 = trace w @
           (if env (trace w) (PathExists (path_join (os_name w) BACKUP_DIR_PATH [hostname])) = Inr ''True''
            then [] else [MakeDirs (path_join (os_name w) BACKUP_DIR_PATH [hostname])])"
    by (rule get_backup_file_path_returned(2) [OF r])
next
  fix p w1
  assume r: "get_backup_file_path env hostname timestamp w = (Inr p, w1)"
    and e: "env (trace w1) (PathExists (path_join (os_name w) BACKUP_DIR_PATH [hostname])) = Inr ''True''"
  have "os_name w1 = os_name w"
    by (rule get_backup_file_path_returned(3) [OF r])
  then have "get_backup_file_path env hostname timestamp' w1
      = (Inr (path_join (os_name w1) BACKUP_DIR_PATH
                [hostname, hostname @ ''-'' @ timestamp' @ ''.txt'']), w1)"
    using e by (simp add: get_backup_file_path_run)
  then show "\<exists>p'. get_backup_file_path env hostname timestamp' w1 = (Inr p', w1)"
    by (rule exI)
qed

theorem C8_backup_path_witness:
  "fst (get_backup_file_path
          (\<lambda>tr c. if c = PathExists ''C:/Temp/_CiscoDevNet/backup/R1''
                       \<and> MakeDirs ''C:/Temp/_CiscoDevNet/backup/R1'' \<in> set tr
                    then Inr ''True'' else Inr [])
          ''R1'' ''2024_01_01-00_00_00'' world0)
     = Inr ''C:/Temp/_CiscoDevNet/backup/R1/R1-2024_01_01-00_00_00.txt''
   \<and> trace (snd (get_backup_file_path
          (\<lambda>tr c. if c = PathExists ''C:/Temp/_CiscoDevNet/backup/R1''
                       \<and> MakeDirs ''C:/Temp/_CiscoDevNet/backup/R1'' \<in> set tr
                    then Inr ''True'' else Inr [])
          ''R1'' ''2024_01_01-00_00_00'' world0))
     = [MakeDirs ''C:/Temp/_CiscoDevNet/backup/R1'']
   \<and> (\<exists>p'. get_backup_file_path
          (\<lambda>tr c. if c = PathExists ''C:/Temp/_CiscoDevNet/backup/R1''
                       \<and> MakeDirs ''C:/Temp/_CiscoDevNet/backup/R1'' \<in> set tr
                    then Inr ''True'' else Inr [])
          ''R1'' ''2024_01_01-00_00_05''
          (snd (get_backup_file_path
             (\<lambda>tr c. if c = PathExists ''C:/Temp/_CiscoDevNet/backup/R1''
                          \<and> MakeDirs ''C:/Temp/_CiscoDevNet/backup/R1'' \<in> set tr
                       then Inr ''True'' else Inr [])
             ''R1'' ''2024_01_01-00_00_00'' world0))
        = (Inr p', snd (get_backup_file_path
             (\<lambda>tr c. if c = PathExists ''C:/Temp/_CiscoDevNet/backup/R1''
                          \<and> MakeDirs ''C:/Temp/_CiscoDevNet/backup/R1'' \<in> set tr
                       then Inr ''True'' else Inr [])
             ''R1'' ''2024_01_01-00_00_00'' world0)))
   \<and> fst (get_backup_file_path
          (\<lambda>tr c. if c = PathExists (''C:/Temp/_CiscoDevNet/backup'' @ [CHR 0x5C] @ ''R1'')
                       \<and> MakeDirs (''C:/Temp/_CiscoDevNet/backup'' @ [CHR 0x5C] @ ''R1'') \<in> set tr
                    then Inr ''True'' else Inr [])
          ''R1'' ''2024_01_01-00_00_00'' (world0\<lparr>os_name := Nt\<rparr>))
     = Inr (''C:/Temp/_CiscoDevNet/backup'' @ [CHR 0x5C] @ ''R1'' @ [CHR 0x5C]
            @ ''R1-2024_01_01-00_00_00.txt'')
   \<and> trace (snd (get_backup_file_path
          (\<lambda>tr c. if c = PathExists (''C:/Temp/_CiscoDevNet/backup'' @ [CHR 0x5C] @ ''R1'')
                       \<and> MakeDirs (''C:/Temp/_CiscoDevNet/backup'' @ [CHR 0x5C] @ ''R1'') \<in> set tr
                    then Inr ''True'' else Inr [])
          ''R1'' ''2024_01_01-00_00_00'' (world0\<lparr>os_name := Nt\<rparr>)))
     = [MakeDirs (''C:/Temp/_CiscoDevNet/backup'' @ [CHR 0x5C] @ ''R1'')]
   \<and> (\<exists>p'. get_backup_file_path
          (\<lambda>tr c. if c = PathExists (''C:/Temp/_CiscoDevNet/backup'' @ [CHR 0x5C] @ ''R1'')
                       \<and> MakeDirs (''C:/Temp/_CiscoDevNet/backup'' @ [CHR 0x5C] @ ''R1'') \<in> set tr
                    then Inr ''True'' else Inr [])
          ''R1'' ''2024_01_01-00_00_05''
          (snd (get_backup_file_path
             (\<lambda>tr c. if c = PathExists (''C:/Temp/_CiscoDevNet/backup'' @ [CHR 0x5C] @ ''R1'')
                          \<and> MakeDirs (''C:/Temp/_CiscoDevNet/backup'' @ [CHR 0x5C] @ ''R1'') \<in> set tr
                       then Inr ''True'' else Inr [])
             ''R1'' ''2024_01_01-00_00_00'' (world0\<lparr>os_name := Nt\<rparr>)))
        = (Inr p', snd (get_backup_file_path
             (\<lambda>tr c. if c = PathExists (''C:/Temp/_CiscoDevNet/backup'' @ [CHR 0x5C] @ ''R1'')
                          \<and> MakeDirs (''C:/Temp/_CiscoDevNet/backup'' @ [CHR 0x5C] @ ''R1'') \<in> set tr
                       then Inr ''True'' else Inr [])
             ''R1'' ''2024_01_01-00_00_00'' (world0\<lparr>os_name := Nt\<rparr>))))"
proof -
  let ?dP = "''C:/Temp/_CiscoDevNet/backup/R1''"
  let ?dN = "''C:/Temp/_CiscoDevNet/backup'' @ [CHR 0x5C] @ ''R1''"
  let ?eP = "(\<lambda>tr c. if c = PathExists ?dP \<and> MakeDirs ?dP \<in> set tr then Inr ''True'' else Inr []) :: env"
  let ?eN = "(\<lambda>tr c. if c = PathExists ?dN \<and> MakeDirs ?dN \<in> set tr then Inr ''True'' else Inr []) :: env"
  let ?wN = "world0\<lparr>os_name := Nt\<rparr>"
  let ?rP = "get_backup_file_path ?eP ''R1'' ''2024_01_01-00_00_00'' world0"
  let ?rN = "get_backup_file_path ?eN ''R1'' ''2024_01_01-00_00_00'' ?wN"
  have w: "os_name world0 = Posix" "trace world0 = []" "os_name ?wN = Nt" "trace ?wN = []"
    by (simp_all add: world0_def)
  have dP: "path_join Posix BACKUP_DIR_PATH [''R1''] = ?dP"
    and dN: "path_join Nt BACKUP_DIR_PATH [''R1''] = ?dN"
    by code_simp+
  have root: "BACKUP_DIR_PATH = ''C:/Temp/_CiscoDevNet/backup''"
    by (simp add: BACKUP_DIR_PATH_def)
  note CP = C8_backup_path [where env = ?eP and hostname = "''R1''" and w = world0
      and timestamp = "''2024_01_01-00_00_00''" and timestamp' = "''2024_01_01-00_00_05''",
      unfolded w dP]
  note CN = C8_backup_path [where env = ?eN and hostname = "''R1''" and w = ?wN
      and timestamp = "''2024_01_01-00_00_00''" and timestamp' = "''2024_01_01-00_00_05''",
      unfolded w dN]
  have hP: "Posix = Posix \<and> ''R1'' \<noteq> [] \<and> hd ''R1'' \<noteq> CHR ''/'' \<and> last ''R1'' \<noteq> CHR ''/''"
    by simp
  have hN: "Nt = Nt \<and> ''R1'' \<noteq> [] \<and> \<not> is_nt_sep (hd ''R1'') \<and> \<not> is_nt_sep (last ''R1'')
        \<and> take 1 (drop 1 ''R1'') \<noteq> '':''"
    by (simp add: is_nt_sep_def)
  have mP: "?eP [] (PathExists ?dP) = Inr ''True'' \<or> (\<exists>s. ?eP [] (MakeDirs ?dP) = Inr s)"
    by simp
  have mN: "?eN [] (PathExists ?dN) = Inr ''True'' \<or> (\<exists>s. ?eN [] (MakeDirs ?dN) = Inr s)"
    by simp
  obtain p w1 where rP: "?rP = (Inr p, w1)"
    using CP [THEN conjunct2, THEN conjunct2, THEN conjunct1, THEN mp, OF mP] by (elim exE)
  have pP: "p = BACKUP_DIR_PATH @ ''/'' @ ''R1'' @ ''/'' @ ''R1'' @ ''-'' @ ''2024_01_01-00_00_00'' @ ''.txt''"
    using CP [THEN conjunct1, THEN mp, OF hP, THEN spec, THEN spec, THEN mp, OF rP] .
  have tP: "trace w1 = [] @ (if ?eP [] (PathExists ?dP) = Inr ''True'' then [] else [MakeDirs ?dP])"
    using CP [THEN conjunct2, THEN conjunct2, THEN conjunct2, THEN spec, THEN spec, THEN mp, OF rP,
        THEN conjunct1] .
  have sP: "?eP (trace w1) (PathExists ?dP) = Inr ''True''
             \<longrightarrow> (\<exists>p'. get_backup_file_path ?eP ''R1'' ''2024_01_01-00_00_05'' w1 = (Inr p', w1))"
    using CP [THEN conjunct2, THEN conjunct2, THEN conjunct2, THEN spec, THEN spec, THEN mp, OF rP,
        THEN conjunct2] .
  have tP': "trace w1 = [MakeDirs ?dP]" using tP by simp
  have fP: "fst ?rP = Inr p" "snd ?rP = w1"
    by (simp_all only: rP fst_conv snd_conv)
  have P: "fst ?rP = Inr ''C:/Temp/_CiscoDevNet/backup/R1/R1-2024_01_01-00_00_00.txt''
       \<and> trace (snd ?rP) = [MakeDirs ?dP]
       \<and> (\<exists>p'. get_backup_file_path ?eP ''R1'' ''2024_01_01-00_00_05'' (snd ?rP) = (Inr p', snd ?rP))"
    unfolding fP using sP tP' by (simp add: pP root)
  obtain q w2 where rN: "?rN = (Inr q, w2)"
    using CN [THEN conjunct2, THEN conjunct2, THEN conjunct1, THEN mp, OF mN] by (elim exE)
  have pN: "q = BACKUP_DIR_PATH @ [CHR 0x5C] @ ''R1'' @ [CHR 0x5C] @ ''R1'' @ ''-''
                @ ''2024_01_01-00_00_00'' @ ''.txt''"
    using CN [THEN conjunct2, THEN conjunct1, THEN mp, OF hN, THEN spec, THEN spec, THEN mp, OF rN] .
  have tN: "trace w2 = [] @ (if ?eN [] (PathExists ?dN) = Inr ''True'' then [] else [MakeDirs ?dN])"
    using CN [THEN conjunct2, THEN conjunct2, THEN conjunct2, THEN spec, THEN spec, THEN mp, OF rN,
        THEN conjunct1] .
  have sN: "?eN (trace w2) (PathExists ?dN) = Inr ''True''
             \<longrightarrow> (\<exists>p'. get_backup_file_path ?eN ''R1'' ''2024_01_01-00_00_05'' w2 = (Inr p', w2))"
    using CN [THEN conjunct2, THEN conjunct2, THEN conjunct2, THEN spec, THEN spec, THEN mp, OF rN,
        THEN conjunct2] .
  have tN': "trace w2 = [MakeDirs ?dN]" using tN by simp
  have fN: "fst ?rN = Inr q" "snd ?rN = w2"
    by (simp_all only: rN fst_conv snd_conv)
  have N: "fst ?rN = Inr (''C:/Temp/_CiscoDevNet/backup'' @ [CHR 0x5C] @ ''R1'' @ [CHR 0x5C]
            @ ''R1-2024_01_01-00_00_00.txt'')
       \<and> trace (snd ?rN) = [MakeDirs ?dN]
       \<and> (\<exists>p'. get_backup_file_path ?eN ''R1'' ''2024_01_01-00_00_05'' (snd ?rN) = (Inr p', snd ?rN))"
    unfolding fN using sN tN' by (simp add: pN root)
  from P N show ?thesis by simp
qed

text \<open>
  Claim C8 as stated, for every hostname. A hostname that starts with the separator makes
  the join drop the backup root (on Windows its drive letter stays), and on Windows a
  hostname that carries a drive letter of its own replaces the root altogether.
\<close>

theorem C8_absolute_hostname_counterexample:
  "fst (get_backup_file_path (scripted []) ''/etc'' ''2024_01_01-00_00_00'' world0)
     = Inr ''/etc-2024_01_01-00_00_00.txt''
   \<and> fst (get_backup_file_path (scripted []) ''/etc'' ''2024_01_01-00_00_00''
            (world0\<lparr>os_name := Nt\<rparr>))
     = Inr ''C:/etc-2024_01_01-00_00_00.txt''
   \<and> fst (get_backup_file_path (scripted []) ''D:R1'' ''2024_01_01-00_00_00''
            (world0\<lparr>os_name := Nt\<rparr>))
     = Inr (''D:R1'' @ [CHR 0x5C] @ ''R1-2024_01_01-00_00_00.txt'')
   \<and> ''/etc-2024_01_01-00_00_00.txt''
     \<noteq> BACKUP_DIR_PATH @ ''/'' @ ''/etc'' @ ''/'' @ ''/etc'' @ ''-'' @ ''2024_01_01-00_00_00'' @ ''.txt''
   \<and> ''C:/etc-2024_01_01-00_00_00.txt''
     \<noteq> BACKUP_DIR_PATH @ [CHR 0x5C] @ ''/etc'' @ [CHR 0x5C] @ ''/etc'' @ ''-''
        @ ''2024_01_01-00_00_00'' @ ''.txt''
   \<and> ''C:/etc-2024_01_01-00_00_00.txt''
     \<noteq> BACKUP_DIR_PATH @ ''/'' @ ''/etc'' @ ''/'' @ ''/etc'' @ ''-'' @ ''2024_01_01-00_00_00'' @ ''.txt''
   \<and> ''D:R1'' @ [CHR 0x5C] @ ''R1-2024_01_01-00_00_00.txt''
     \<noteq> BACKUP_DIR_PATH @ [CHR 0x5C] @ ''D:R1'' @ [CHR 0x5C] @ ''D:R1'' @ ''-''
        @ ''2024_01_01-00_00_00'' @ ''.txt''"
  by code_simp

section \<open>The device registry\<close>

lemma getitem_hostname:
  "map_of r ''hostname'' \<noteq> None \<Longrightarrow> getitem r ''hostname'' w = (Inr (hostname_of r), w)"
  by (auto simp: getitem_def hostname_of_def io_return_def)

lemma print_hostname_notice:
  "map_of r ''hostname'' \<noteq> None \<Longrightarrow>
     io_bind (getitem r ''hostname'') (\<lambda>x. print (f x)) w
       = (Inr (), w\<lparr>stdout := stdout w @ [f (hostname_of r)]\<rparr>)"
  by (simp add: io_bind_def getitem_hostname print_def)

lemma no_accepted_match:
  assumes "hostname_of r \<notin> hostname_of ` set acc"
  shows "filter (\<lambda>d. hostname_of d = hostname_of r) acc = []"
proof -
  have "\<forall>d\<in>set acc. hostname_of d \<noteq> hostname_of r"
    using assms by (metis image_eqI)
  then show ?thesis by simp
qed

lemma scan_device_list_eq:
  assumes "\<forall>d\<in>set devs. map_of d ''hostname'' \<noteq> None" and "map_of r ''hostname'' \<noteq> None"
  shows "scan_device_list devs r dup w =
           (Inr (dup \<or> hostname_of r \<in> hostname_of ` set devs),
            w\<lparr>stdout := stdout w @
                 replicate (length (filter (\<lambda>d. hostname_of d = hostname_of r) devs))
                   (dup_notice (hostname_of r))\<rparr>)"
  using assms
proof (induction devs arbitrary: dup w)
  case Nil
  then show ?case by simp
next
  case (Cons dev devs)
  then show ?case
    by (auto simp: getitem_hostname print_hostname_notice replicate_app_Cons_same)
qed

lemma read_rows_eq:
  assumes "\<forall>d\<in>set acc. map_of d ''hostname'' \<noteq> None"
    and "\<forall>r\<in>set rows. map_of r ''hostname'' \<noteq> None"
  shows "read_rows rows acc w =
           (Inr (first_seen acc rows), w\<lparr>stdout := stdout w @ notices acc rows\<rparr>)"
  using assms
proof (induction rows arbitrary: acc w)
  case Nil
  then show ?case by simp
next
  case (Cons r rows)
  then show ?case
    by (auto simp: scan_device_list_eq print_hostname_notice no_accepted_match)
qed

text \<open>What the rule accepts and prints.\<close>

lemma at_most_one_match:
  "distinct (map hostname_of acc) \<Longrightarrow>
     length (filter (\<lambda>d. hostname_of d = h) acc) \<le> 1"
proof (induction acc)
  case Nil
  then show ?case by simp
next
  case (Cons a acc)
  show ?case
  proof (cases "hostname_of a = h")
    case True
    then have "hostname_of a \<notin> hostname_of ` set acc" using Cons.prems by auto
    then have "filter (\<lambda>d. hostname_of d = hostname_of a) acc = []"
      by (rule no_accepted_match)
    then show ?thesis using True by simp
  next
    case False
    then show ?thesis using Cons by simp
  qed
qed

lemma first_seen_filter:
  "distinct (map hostname_of acc) \<Longrightarrow>
     filter (\<lambda>d. hostname_of d = h) (first_seen acc rows)
       = take 1 (filter (\<lambda>r. hostname_of r = h) (acc @ rows))"
proof (induction rows arbitrary: acc)
  case Nil
  then have "length (filter (\<lambda>d. hostname_of d = h) acc) \<le> 1"
    by (rule at_most_one_match)
  then show ?case by simp
next
  case (Cons r rows)
  show ?case
  proof (cases "hostname_of r \<in> hostname_of ` set acc")
    case True
    show ?thesis
    proof (cases "hostname_of r = h")
      case eq: True
      then obtain d where "d \<in> set acc" "hostname_of d = h" using True by auto
      then have "filter (\<lambda>r. hostname_of r = h) acc \<noteq> []"
        by (auto simp: filter_empty_conv)
      then show ?thesis
        using True Cons.IH [OF Cons.prems]
        by (cases "filter (\<lambda>r. hostname_of r = h) acc") auto
    next
      case False
      then show ?thesis using True Cons.IH [OF Cons.prems] by simp
    qed
  next
    case False
    then have "distinct (map hostname_of (acc @ [r]))" using Cons.prems by auto
    then show ?thesis using False Cons.IH [of "acc @ [r]"] by simp
  qed
qed

lemma remdups_drop_later:
  "x \<in> set ys \<Longrightarrow> remdups (xs @ x # ys) = remdups (xs @ ys)"
  by (induction xs) auto

lemma first_seen_order:
  "distinct (map hostname_of acc) \<Longrightarrow>
     map hostname_of (first_seen acc rows) = rev (remdups (rev (map hostname_of (acc @ rows))))"
proof (induction rows arbitrary: acc)
  case Nil
  then show ?case by (simp add: distinct_remdups_id)
next
  case (Cons r rows)
  show ?case
  proof (cases "hostname_of r \<in> hostname_of ` set acc")
    case True
    then have "remdups (rev (map hostname_of rows) @ hostname_of r # rev (map hostname_of acc))
               = remdups (rev (map hostname_of rows) @ rev (map hostname_of acc))"
      by (intro remdups_drop_later) simp
    then show ?thesis using True Cons.IH [OF Cons.prems] by simp
  next
    case False
    then have "distinct (map hostname_of (acc @ [r]))" using Cons.prems by auto
    then show ?thesis using False Cons.IH [of "acc @ [r]"] by simp
  qed
qed

lemma dup_notice_inj: "dup_notice a = dup_notice b \<longleftrightarrow> a = b"
  by (simp add: dup_notice_def)

lemma add_notice_not_dup: "add_notice a \<noteq> dup_notice b"
  by (simp add: add_notice_def dup_notice_def)

lemma one_accepted_match:
  assumes "distinct (map hostname_of acc)" and "hostname_of r \<in> hostname_of ` set acc"
  shows "length (filter (\<lambda>d. hostname_of d = hostname_of r) acc) = 1"
proof -
  obtain d where "d \<in> set acc" "hostname_of d = hostname_of r" using assms(2) by auto
  then have "filter (\<lambda>d. hostname_of d = hostname_of r) acc \<noteq> []"
    by (auto simp: filter_empty_conv)
  then have "0 < length (filter (\<lambda>d. hostname_of d = hostname_of r) acc)" by simp
  then show ?thesis
    using at_most_one_match [OF assms(1), of "hostname_of r"] by linarith
qed

lemma notices_count:
  "distinct (map hostname_of acc) \<Longrightarrow>
     length (filter (\<lambda>l. l = dup_notice h) (notices acc rows))
       = length (filter (\<lambda>r. hostname_of r = h) rows)
         - (if h \<in> hostname_of ` set acc then 0 else 1)"
proof (induction rows arbitrary: acc)
  case Nil
  show ?case by simp
next
  case (Cons r rows)
  show ?case
  proof (cases "hostname_of r \<in> hostname_of ` set acc")
    case True
    then have one: "length (filter (\<lambda>d. hostname_of d = hostname_of r) acc) = 1"
      using Cons.prems by (intro one_accepted_match)
    show ?thesis
      using True Cons.IH [OF Cons.prems] by (auto simp: one dup_notice_inj)
  next
    case False
    then have d: "distinct (map hostname_of (acc @ [r]))" using Cons.prems by auto
    show ?thesis
      using False Cons.IH [OF d] by (auto simp: add_notice_not_dup)
  qed
qed

text \<open>
  Claim C4. When every row has a hostname, the registry returns a list and prints lines
  such that: the hostnames of the result are those of the rows in first-seen order, each
  once; for every hostname the result holds exactly the first row of that hostname; and
  the number of duplicate notices for a hostname is the number of its rows minus one.
\<close>

theorem C4_registry_dedup:
  assumes "\<forall>r\<in>set rows. map_of r ''hostname'' \<noteq> None"
  shows "\<exists>ds out.
           get_devices_from_file rows w = (Inr ds, w\<lparr>stdout := stdout w @ out\<rparr>)
         \<and> map hostname_of ds = rev (remdups (rev (map hostname_of rows)))
         \<and> (\<forall>h. filter (\<lambda>d. hostname_of d = h) ds
                   = take 1 (filter (\<lambda>r. hostname_of r = h) rows)
                \<and> length (filter (\<lambda>l. l = dup_notice h) out)
                   = length (filter (\<lambda>r. hostname_of r = h) rows) - 1)"
proof (intro exI conjI allI)
  show "get_devices_from_file rows w =
          (Inr (first_seen [] rows), w\<lparr>stdout := stdout w @ notices [] rows\<rparr>)"
    unfolding get_devices_from_file_def using assms by (intro read_rows_eq) simp_all
  show "map hostname_of (first_seen [] rows) = rev (remdups (rev (map hostname_of rows)))"
    using first_seen_order [of "[]" rows] by simp
  show "filter (\<lambda>d. hostname_of d = h) (first_seen [] rows)
          = take 1 (filter (\<lambda>r. hostname_of r = h) rows)" for h
    using first_seen_filter [of "[]" h rows] by simp
  show "length (filter (\<lambda>l. l = dup_notice h) (notices [] rows))
          = length (filter (\<lambda>r. hostname_of r = h) rows) - 1" for h
    using notices_count [of "[]" h rows] by simp
qed

theorem C4_registry_dedup_witness:
  "\<exists>ds out.
     get_devices_from_file
       [[(''hostname'', ''R1''), (''ip'', ''10.0.0.1'')],
        [(''hostname'', ''R2''), (''ip'', ''10.0.0.2'')],
        [(''hostname'', ''R1''), (''ip'', ''10.0.0.3'')],
        [(''hostname'', ''R1''), (''ip'', ''10.0.0.4'')]] world0
       = (Inr ds, world0\<lparr>stdout := stdout world0 @ out\<rparr>)
   \<and> map hostname_of ds = [''R1'', ''R2'']
   \<and> filter (\<lambda>d. hostname_of d = ''R1'') ds = [[(''hostname'', ''R1''), (''ip'', ''10.0.0.1'')]]
   \<and> length (filter (\<lambda>l. l = dup_notice ''R1'') out) = 2"
proof -
  let ?rows = "[[(''hostname'', ''R1''), (''ip'', ''10.0.0.1'')],
        [(''hostname'', ''R2''), (''ip'', ''10.0.0.2'')],
        [(''hostname'', ''R1''), (''ip'', ''10.0.0.3'')],
        [(''hostname'', ''R1''), (''ip'', ''10.0.0.4'')]]"
  have h: "\<forall>r\<in>set ?rows. map_of r ''hostname'' \<noteq> None"
    by simp
  obtain ds out where r: "get_devices_from_file ?rows world0 = (Inr ds, world0\<lparr>stdout := stdout world0 @ out\<rparr>)"
    and o: "map hostname_of ds = rev (remdups (rev (map hostname_of ?rows)))"
    and f: "\<forall>h. filter (\<lambda>d. hostname_of d = h) ds
                   = take 1 (filter (\<lambda>r. hostname_of r = h) ?rows)
                \<and> length (filter (\<lambda>l. l = dup_notice h) out)
                   = length (filter (\<lambda>r. hostname_of r = h) ?rows) - 1"
    using C4_registry_dedup [of ?rows world0, OF h] by blast
  have o': "map hostname_of ds = [''R1'', ''R2'']"
    using o by (simp add: hostname_of_def)
  have f': "filter (\<lambda>d. hostname_of d = ''R1'') ds = [[(''hostname'', ''R1''), (''ip'', ''10.0.0.1'')]]"
    and n': "length (filter (\<lambda>l. l = dup_notice ''R1'') out) = 2"
    using f [THEN spec, of "''R1''"] by (simp_all add: hostname_of_def)
  from r o' f' n' show ?thesis
    by (intro exI [of _ ds] exI [of _ out] conjI)
qed

section \<open>Counting CDP neighbours\<close>

lemma is_linebreak_cr_lf: "is_linebreak (CHR 0x0D)" "is_linebreak (CHR 0x0A)"
  by (simp_all add: is_linebreak_def)

lemma splitlines_aux_line:
  "\<forall>c\<in>set l. \<not> is_linebreak c \<Longrightarrow>
     splitlines_aux cur (l @ rest) = splitlines_aux (rev l @ cur) rest"
proof (induction l arbitrary: cur)
  case Nil
  show ?case by simp
next
  case (Cons c l)
  have "c \<noteq> CHR 0x0D" using Cons.prems is_linebreak_cr_lf(1) by auto
  then show ?case using Cons by simp
qed

lemma splitlines_aux_lf:
  "splitlines_aux cur (CHR 0x0A # rest) = rev cur # splitlines_aux [] rest"
  by (simp add: is_linebreak_cr_lf)

lemma splitlines_aux_lines:
  assumes "\<forall>l\<in>set (l0 # ls). \<forall>c\<in>set l. \<not> is_linebreak c"
    and "ls \<noteq> [] \<longrightarrow> last ls \<noteq> []"
    and "l0 \<noteq> [] \<or> cur \<noteq> [] \<or> ls \<noteq> []"
  shows "splitlines_aux cur (l0 @ concat (map (\<lambda>l. CHR 0x0A # l) ls)) = (rev cur @ l0) # ls"
  using assms
proof (induction ls arbitrary: cur l0)
  case Nil
  have "splitlines_aux cur (l0 @ []) = splitlines_aux (rev l0 @ cur) []"
    using Nil.prems(1) by (intro splitlines_aux_line) simp
  then show ?case using Nil.prems(3) by auto
next
  case (Cons x xs)
  have nb: "\<forall>c\<in>set l0. \<not> is_linebreak c" using Cons.prems(1) by simp
  have rest: "splitlines_aux [] (x @ concat (map (\<lambda>l. CHR 0x0A # l) xs)) = (rev [] @ x) # xs"
  proof (rule Cons.IH)
    show "\<forall>l\<in>set (x # xs). \<forall>c\<in>set l. \<not> is_linebreak c" using Cons.prems(1) by simp
    show "xs \<noteq> [] \<longrightarrow> last xs \<noteq> []" using Cons.prems(2) by auto
    show "x \<noteq> [] \<or> [] \<noteq> [] \<or> xs \<noteq> []" using Cons.prems(2) by (cases xs) auto
  qed
  have "splitlines_aux cur (l0 @ concat (map (\<lambda>l. CHR 0x0A # l) (x # xs)))
        = splitlines_aux (rev l0 @ cur) (CHR 0x0A # x @ concat (map (\<lambda>l. CHR 0x0A # l) xs))"
    using splitlines_aux_line [OF nb] by simp
  also have "\<dots> = rev (rev l0 @ cur) # splitlines_aux [] (x @ concat (map (\<lambda>l. CHR 0x0A # l) xs))"
    by (rule splitlines_aux_lf)
  finally show ?case using rest by simp
qed

lemma cdp_count_lines:
  assumes "prefix ''Device ID'' header"
    and "\<forall>k<length pre. \<not> prefix ''Device ID''
           (drop k (pre @ header @ concat (map (\<lambda>l. CHR 0x0A # l) ls)))"
    and "\<forall>l\<in>set (header # ls). \<forall>c\<in>set l. \<not> is_linebreak c"
    and "ls \<noteq> [] \<longrightarrow> last ls \<noteq> []"
  shows "cdp_count (pre @ header @ concat (map (\<lambda>l. CHR 0x0A # l) ls))
         = int (length (filter (\<lambda>l. \<not> prefix '' '' l) ls))"
proof -
  let ?tail = "concat (map (\<lambda>l. CHR 0x0A # l) ls)"
  let ?o2 = "pre @ header @ ?tail"
  have hd: "header \<noteq> []" using assms(1) by auto
  have "prefix ''Device ID'' (header @ ?tail)"
    using assms(1) by (rule prefix_prefix)
  then have "str_find (pre @ (header @ ?tail)) ''Device ID'' = int (length pre)"
    using assms(2) by (intro str_find_first) 
  then have "cdp_scanned ?o2 = drop (length pre) ?o2"
    unfolding cdp_scanned_def by (simp only: slice_nat_to_end)
  then have sc: "cdp_scanned ?o2 = header @ ?tail" by simp
  have "splitlines_aux [] (header @ ?tail) = (rev [] @ header) # ls"
    using assms(3,4) hd by (intro splitlines_aux_lines) simp_all
  then have sl: "splitlines (cdp_scanned ?o2) = header # ls"
    by (simp add: splitlines_def sc)
  have "\<not> startswith header '' ''"
    using assms(1) by (cases header) (auto simp: startswith_def)
  then show ?thesis
    by (simp add: cdp_count_eq sl startswith_def)
qed

text \<open>
  Claim C5. When the output of \<open>sh cdp\<close> contains \<open>CDP is not enabled\<close> the result is
  \<open>CDP is OFF\<close> and the session receives that one command. Otherwise \<open>sh cdp nei\<close>
  is sent; when its output has the header line at the first occurrence of \<open>Device ID\<close>
  and after it the lines \<open>ls\<close>, the counter starts at \<open>-1\<close>, counts the header and every
  line of \<open>ls\<close> that does not start with a space, and the result names that many peers.
\<close>

theorem C5_cdp_status:
  assumes "env (trace w) (SendCommand ''sh cdp'') = Inr o1"
  shows "(sublist ''CDP is not enabled'' o1 \<longrightarrow>
            get_device_cdp_info env w =
              (Inr ''CDP is OFF'', w\<lparr>trace := trace w @ [SendCommand ''sh cdp'']\<rparr>))
       \<and> (\<not> sublist ''CDP is not enabled'' o1
          \<and> env (trace w @ [SendCommand ''sh cdp'']) (SendCommand ''sh cdp nei'')
              = Inr (pre @ header @ concat (map (\<lambda>l. CHR 0x0A # l) ls))
          \<and> prefix ''Device ID'' header
          \<and> (\<forall>k<length pre. \<not> prefix ''Device ID''
                (drop k (pre @ header @ concat (map (\<lambda>l. CHR 0x0A # l) ls))))
          \<and> (\<forall>l\<in>set (header # ls). \<forall>c\<in>set l. \<not> is_linebreak c)
          \<and> (ls \<noteq> [] \<longrightarrow> last ls \<noteq> [])
          \<longrightarrow> cdp_count (pre @ header @ concat (map (\<lambda>l. CHR 0x0A # l) ls))
                = - 1 + (1 + int (length (filter (\<lambda>l. \<not> prefix '' '' l) ls)))
              \<and> get_device_cdp_info env w =
                (Inr (''CDP is ON, '' @ str_int (int (length (filter (\<lambda>l. \<not> prefix '' '' l) ls)))
                      @ '' peers''),
                 w\<lparr>trace := trace w @ [SendCommand ''sh cdp'', SendCommand ''sh cdp nei'']\<rparr>))"
proof (intro conjI impI)
  assume "sublist ''CDP is not enabled'' o1"
  then show "get_device_cdp_info env w =
              (Inr ''CDP is OFF'', w\<lparr>trace := trace w @ [SendCommand ''sh cdp'']\<rparr>)"
    using assms by (intro get_device_cdp_info_off)
next
  let ?o2 = "pre @ header @ concat (map (\<lambda>l. CHR 0x0A # l) ls)"
  assume a: "\<not> sublist ''CDP is not enabled'' o1
          \<and> env (trace w @ [SendCommand ''sh cdp'']) (SendCommand ''sh cdp nei'') = Inr ?o2
          \<and> prefix ''Device ID'' header
          \<and> (\<forall>k<length pre. \<not> prefix ''Device ID'' (drop k ?o2))
          \<and> (\<forall>l\<in>set (header # ls). \<forall>c\<in>set l. \<not> is_linebreak c)
          \<and> (ls \<noteq> [] \<longrightarrow> last ls \<noteq> [])"
  have c: "cdp_count ?o2 = int (length (filter (\<lambda>l. \<not> prefix '' '' l) ls))"
    using a by (intro cdp_count_lines) blast+
  then show "cdp_count ?o2 = - 1 + (1 + int (length (filter (\<lambda>l. \<not> prefix '' '' l) ls)))"
    by simp
  have "get_device_cdp_info env w =
           (Inr (''CDP is ON, '' @ str_int (cdp_count ?o2) @ '' peers''),
            w\<lparr>trace := trace w @ [SendCommand ''sh cdp'', SendCommand ''sh cdp nei'']\<rparr>)"
    using assms a by (intro get_device_cdp_info_on [of env w o1]) blast+
  then show "get_device_cdp_info env w =
                (Inr (''CDP is ON, '' @ str_int (int (length (filter (\<lambda>l. \<not> prefix '' '' l) ls)))
                      @ '' peers''),
                 w\<lparr>trace := trace w @ [SendCommand ''sh cdp'', SendCommand ''sh cdp nei'']\<rparr>)"
    unfolding c .
qed

theorem C5_cdp_status_witness:
  "get_device_cdp_info (scripted [(SendCommand ''sh cdp'', Inr ''% CDP is not enabled'')]) world0
     = (Inr ''CDP is OFF'', world0\<lparr>trace := [SendCommand ''sh cdp'']\<rparr>)
   \<and> get_device_cdp_info
       (scripted [(SendCommand ''sh cdp'', Inr ''Global CDP information:''),
                  (SendCommand ''sh cdp nei'',
                   Inr ''Capability Codes: R - Router\<newline>Device ID        Local Intrfce\<newline>sw1.example.com\<newline>                 Gig 0/1\<newline>sw2  Gig 0/2\<newline>sw3.example.com\<newline>                 Gig 0/3'')])
       world0
     = (Inr ''CDP is ON, 3 peers'',
        world0\<lparr>trace := [SendCommand ''sh cdp'', SendCommand ''sh cdp nei'']\<rparr>)"
proof -
  let ?a = "scripted [(SendCommand ''sh cdp'', Inr ''% CDP is not enabled'')]"
  let ?pre = "''Capability Codes: R - Router\<newline>''"
  let ?header = "''Device ID        Local Intrfce''"
  let ?ls = "[''sw1.example.com'', ''                 Gig 0/1'', ''sw2  Gig 0/2'',
              ''sw3.example.com'', ''                 Gig 0/3'']"
  let ?o2 = "''Capability Codes: R - Router\<newline>Device ID        Local Intrfce\<newline>sw1.example.com\<newline>                 Gig 0/1\<newline>sw2  Gig 0/2\<newline>sw3.example.com\<newline>                 Gig 0/3''"
  let ?b = "scripted [(SendCommand ''sh cdp'', Inr ''Global CDP information:''),
                  (SendCommand ''sh cdp nei'', Inr ?o2)]"
  have a1: "?a (trace world0) (SendCommand ''sh cdp'') = Inr ''% CDP is not enabled''"
    by (simp add: scripted_def)
  have a2: "sublist ''CDP is not enabled'' ''% CDP is not enabled''"
    by code_simp
  have A: "get_device_cdp_info ?a world0
     = (Inr ''CDP is OFF'', world0\<lparr>trace := [SendCommand ''sh cdp'']\<rparr>)"
    using C5_cdp_status [where env = ?a and w = world0 and ?o1.0 = "''% CDP is not enabled''",
        OF a1] a2
    by (simp add: world0_def)
  have o2: "?o2 = ?pre @ ?header @ concat (map (\<lambda>l. CHR 0x0A # l) ?ls)"
    by simp
  have b1: "?b (trace world0) (SendCommand ''sh cdp'') = Inr ''Global CDP information:''"
    by (simp add: scripted_def)
  have b2: "\<not> sublist ''CDP is not enabled'' ''Global CDP information:''"
    by code_simp
  have b3: "?b (trace world0 @ [SendCommand ''sh cdp'']) (SendCommand ''sh cdp nei'')
              = Inr (?pre @ ?header @ concat (map (\<lambda>l. CHR 0x0A # l) ?ls))"
    unfolding o2 [symmetric] by (simp add: scripted_def)
  have b4: "prefix ''Device ID'' ?header"
    by simp
  have b5: "\<forall>k<length ?pre. \<not> prefix ''Device ID''
              (drop k (?pre @ ?header @ concat (map (\<lambda>l. CHR 0x0A # l) ?ls)))"
    by code_simp
  have b6: "\<forall>l\<in>set (?header # ?ls). \<forall>c\<in>set l. \<not> is_linebreak c"
    by code_simp
  have b7: "?ls \<noteq> [] \<longrightarrow> last ?ls \<noteq> []"
    by simp
  have n: "str_int (int (length (filter (\<lambda>l. \<not> prefix '' '' l) ?ls))) = ''3''"
    by (simp add: str_int_def str_nat.simps digit_char_def)
  have "get_device_cdp_info ?b world0 =
          (Inr (''CDP is ON, '' @ str_int (int (length (filter (\<lambda>l. \<not> prefix '' '' l) ?ls)))
                @ '' peers''),
           world0\<lparr>trace := trace world0 @ [SendCommand ''sh cdp'', SendCommand ''sh cdp nei'']\<rparr>)"
    using C5_cdp_status [where env = ?b and w = world0 and ?o1.0 = "''Global CDP information:''"
        and pre = ?pre and header = ?header and ls = ?ls, OF b1] b2 b3 b4 b5 b6 b7
    by blast
  then have B: "get_device_cdp_info ?b world0
     = (Inr ''CDP is ON, 3 peers'',
        world0\<lparr>trace := [SendCommand ''sh cdp'', SendCommand ''sh cdp nei'']\<rparr>)"
    unfolding n by (simp add: world0_def)
  show ?thesis using A B by simp
qed

section \<open>Processing one device\<close>

lemma nd_return: "never_disconnects (io_return x)"
  by (simp add: never_disconnects_def io_return_def)

lemma nd_raise: "never_disconnects (io_raise e)"
  by (simp add: never_disconnects_def io_raise_def)

lemma nd_bind:
  assumes "never_disconnects m" and "\<And>x. never_disconnects (f x)"
  shows "never_disconnects (io_bind m f)"
  unfolding never_disconnects_def
proof
  fix w
  obtain r w1 where m: "m w = (r, w1)" by (cases "m w")
  obtain evs1 where e1: "trace w1 = trace w @ evs1" "Disconnect \<notin> set evs1"
    using assms(1) m unfolding never_disconnects_def by (metis snd_conv)
  show "\<exists>evs. trace (snd (io_bind m f w)) = trace w @ evs \<and> Disconnect \<notin> set evs"
  proof (cases r)
    case (Inl e)
    then show ?thesis using m e1 by (auto simp: io_bind_def)
  next
    case (Inr x)
    obtain evs2 where "trace (snd (f x w1)) = trace w1 @ evs2" "Disconnect \<notin> set evs2"
      using assms(2) [of x] unfolding never_disconnects_def by blast
    then have "trace (snd (io_bind m f w)) = trace w @ (evs1 @ evs2) \<and> Disconnect \<notin> set (evs1 @ evs2)"
      using Inr m e1 by (simp add: io_bind_def)
    then show ?thesis by blast
  qed
qed

lemma nd_try: "never_disconnects m \<Longrightarrow> never_disconnects (try_except_Error m h)"
  unfolding never_disconnects_def try_except_Error_def
  by (auto split: prod.splits sum.splits) (metis snd_conv)+

lemma nd_if: "never_disconnects a \<Longrightarrow> never_disconnects b \<Longrightarrow> never_disconnects (if c then a else b)"
  by simp

lemma nd_invoke: "c \<noteq> Disconnect \<Longrightarrow> never_disconnects (invoke env c)"
  by (simp add: never_disconnects_def invoke_def)

lemma nd_send_command: "never_disconnects (send_command env c)"
  by (simp add: send_command_def nd_invoke)

lemma nd_send_config_set: "never_disconnects (send_config_set env c)"
  by (simp add: send_config_set_def nd_invoke)

lemma nd_print: "never_disconnects (print l)"
  by (simp add: never_disconnects_def print_def)

lemma nd_sleep: "never_disconnects (sleep n)"
  by (simp add: never_disconnects_def sleep_def)

lemma nd_getitem: "never_disconnects (getitem r k)"
  by (simp add: getitem_def nd_return nd_raise split: option.splits)

lemma nd_os_path_exists: "never_disconnects (os_path_exists env p)"
  by (simp add: never_disconnects_def os_path_exists_def)

lemma nd_os_path_join: "never_disconnects (os_path_join path parts)"
  by (simp add: never_disconnects_def os_path_join_def)

lemma nd_os_makedirs: "never_disconnects (os_makedirs env p)"
  by (simp add: never_disconnects_def os_makedirs_def split: sum.splits)

lemma nd_write_file: "never_disconnects (write_file env p c)"
  by (simp add: never_disconnects_def write_file_def split: sum.splits)

lemmas nd_basic = nd_return nd_raise nd_bind nd_try nd_if nd_send_command nd_send_config_set
  nd_print nd_sleep nd_getitem nd_os_path_exists nd_os_path_join nd_os_makedirs nd_write_file

lemma nd_get_current_date_and_time: "never_disconnects (get_current_date_and_time env)"
  by (simp add: get_current_date_and_time_def nd_invoke)

lemma nd_connect_to_device: "never_disconnects (connect_to_device env device)"
  unfolding connect_to_device_def by (intro nd_basic nd_invoke) simp

lemma nd_get_backup_file_path: "never_disconnects (get_backup_file_path env h t)"
  unfolding get_backup_file_path_def by (intro nd_basic)

lemma nd_create_backup: "never_disconnects (create_backup env p h)"
  unfolding create_backup_def by (intro nd_basic)

lemma nd_get_device_inv_info: "never_disconnects (get_device_inv_info env)"
  unfolding get_device_inv_info_def by (intro nd_basic)

lemma nd_get_device_ver_info: "never_disconnects (get_device_ver_info env)"
  unfolding get_device_ver_info_def by (intro nd_basic)

lemma nd_get_device_cdp_info: "never_disconnects (get_device_cdp_info env)"
  unfolding get_device_cdp_info_def by (intro nd_basic)

lemma nd_getset_device_ntp_info: "never_disconnects (getset_device_ntp_info env ntp)"
  unfolding getset_device_ntp_info_def by (intro nd_basic)

lemmas nd_steps = nd_get_current_date_and_time nd_connect_to_device nd_get_backup_file_path
  nd_create_backup nd_get_device_inv_info nd_get_device_ver_info nd_get_device_cdp_info
  nd_getset_device_ntp_info

lemma dl_bind:
  assumes "never_disconnects m" and "\<And>x. disconnects_last (f x)"
  shows "disconnects_last (io_bind m f)"
  unfolding disconnects_last_def
proof (intro allI impI)
  fix w r w'
  assume b: "io_bind m f w = (Inr r, w')"
  obtain r1 w1 where m: "m w = (r1, w1)" by (cases "m w")
  obtain evs1 where e1: "trace w1 = trace w @ evs1" "Disconnect \<notin> set evs1"
    using assms(1) m unfolding never_disconnects_def by (metis snd_conv)
  obtain x where x: "r1 = Inr x" "f x w1 = (Inr r, w')"
    using b m by (cases r1) (auto simp: io_bind_def)
  obtain evs2 where "trace w' = trace w1 @ evs2 @ [Disconnect]" "Disconnect \<notin> set evs2"
    using assms(2) [of x] x(2) unfolding disconnects_last_def by blast
  then have "trace w' = trace w @ (evs1 @ evs2) @ [Disconnect] \<and> Disconnect \<notin> set (evs1 @ evs2)"
    using e1 by simp
  then show "\<exists>evs. trace w' = trace w @ evs @ [Disconnect] \<and> Disconnect \<notin> set evs"
    by blast
qed

lemma dl_disconnect_from_device: "disconnects_last (disconnect_from_device env h)"
  by (auto simp: disconnects_last_def disconnect_from_device_def io_bind_def invoke_def
      io_return_def split: sum.splits)

lemma dl_process_target: "disconnects_last (process_target env device)"
  unfolding process_target_def
  by (intro dl_bind dl_disconnect_from_device nd_basic nd_steps nd_invoke) simp

lemma ret_return: "returns (io_return x)"
  by (simp add: returns_def io_return_def)

lemma ret_bind:
  assumes "returns m" and "\<And>x. returns (f x)"
  shows "returns (io_bind m f)"
  unfolding returns_def
proof
  fix w
  obtain x w1 where "m w = (Inr x, w1)" using assms(1) unfolding returns_def by blast
  moreover obtain y w2 where "f x w1 = (Inr y, w2)" using assms(2) unfolding returns_def by blast
  ultimately show "\<exists>y w'. io_bind m f w = (Inr y, w')" by (simp add: io_bind_def)
qed

lemma ret_try: "returns m \<Longrightarrow> returns (try_except_Error m h)"
  unfolding returns_def try_except_Error_def
proof
  fix w
  assume "\<forall>w. \<exists>x w'. m w = (Inr x, w')"
  then obtain x w' where "m w = (Inr x, w')" by blast
  then show "\<exists>x w'. (case m w of (Inr x, w') \<Rightarrow> (Inr x, w')
                      | (Inl e, w') \<Rightarrow> (Inl (NameError ''Error''), w')) = (Inr x, w')"
    by simp
qed

lemma ret_if: "returns a \<Longrightarrow> returns b \<Longrightarrow> returns (if c then a else b)"
  by simp

lemma ret_invoke: "\<forall>tr c. \<exists>s. env tr c = Inr s \<Longrightarrow> returns (invoke env c)"
  by (simp add: returns_def invoke_def)

lemma ret_send_command: "\<forall>tr c. \<exists>s. env tr c = Inr s \<Longrightarrow> returns (send_command env c)"
  by (simp add: send_command_def ret_invoke)

lemma ret_send_config_set: "\<forall>tr c. \<exists>s. env tr c = Inr s \<Longrightarrow> returns (send_config_set env c)"
  by (simp add: send_config_set_def ret_invoke)

lemma ret_print: "returns (print l)"
  by (simp add: returns_def print_def)

lemma ret_sleep: "returns (sleep n)"
  by (simp add: returns_def sleep_def)

lemma ret_getitem: "map_of r k \<noteq> None \<Longrightarrow> returns (getitem r k)"
  by (auto simp: getitem_def ret_return)

lemma ret_os_path_exists: "returns (os_path_exists env p)"
  by (simp add: returns_def os_path_exists_def)

lemma ret_os_path_join: "returns (os_path_join path parts)"
  by (simp add: returns_def os_path_join_def)

lemma ret_os_makedirs: "\<forall>tr c. \<exists>s. env tr c = Inr s \<Longrightarrow> returns (os_makedirs env p)"
  unfolding returns_def os_makedirs_def
proof
  fix w
  assume "\<forall>tr c. \<exists>s. env tr c = Inr s"
  then obtain s where "env (trace w) (MakeDirs p) = Inr s" by blast
  then show "\<exists>x w'. (case env (trace w) (MakeDirs p) of
          Inl e \<Rightarrow> (Inl e, w\<lparr>trace := trace w @ [MakeDirs p]\<rparr>)
        | Inr _ \<Rightarrow> (Inr (), w\<lparr>trace := trace w @ [MakeDirs p]\<rparr>)) = (Inr x, w')"
    by simp
qed

lemma ret_write_file: "\<forall>tr c. \<exists>s. env tr c = Inr s \<Longrightarrow> returns (write_file env p c)"
  unfolding returns_def write_file_def
proof
  fix w
  assume "\<forall>tr c. \<exists>s. env tr c = Inr s"
  then obtain s where "env (trace w) (WriteFile p c) = Inr s" by blast
  then show "\<exists>x w'. (case env (trace w) (WriteFile p c) of
          Inl e \<Rightarrow> (Inl e, w\<lparr>trace := trace w @ [WriteFile p c]\<rparr>)
        | Inr _ \<Rightarrow> (Inr (), w\<lparr>trace := trace w @ [WriteFile p c]\<rparr>)) = (Inr x, w')"
    by simp
qed

lemmas ret_basic = ret_return ret_bind ret_try ret_if ret_invoke ret_send_command
  ret_send_config_set ret_print ret_sleep ret_getitem ret_os_path_exists ret_os_path_join
  ret_os_makedirs ret_write_file

lemma ret_process_target:
  assumes "\<forall>tr c. \<exists>s. env tr c = Inr s"
    and "\<forall>k\<in>{''hostname'', ''ip'', ''username'', ''password'', ''device_type'', ''secret'', ''ntp''}.
           map_of device k \<noteq> None"
  shows "returns (process_target env device)"
  unfolding process_target_def get_current_date_and_time_def connect_to_device_def
    get_backup_file_path_def create_backup_def get_device_inv_info_def get_device_ver_info_def
    get_device_cdp_info_def getset_device_ntp_info_def disconnect_from_device_def
  using assms by (intro ret_basic) simp_all

lemma bind_Inr: "m w = (Inr x, w1) \<Longrightarrow> io_bind m f w = f x w1"
  by (simp add: io_bind_def)

lemma bind_Inl: "m w = (Inl e, w1) \<Longrightarrow> io_bind m f w = (Inl e, w1)"
  by (simp add: io_bind_def)

lemma connect_to_device_run:
  assumes "map_of device ''ip'' = Some ip" and "map_of device ''username'' = Some un"
    and "map_of device ''password'' = Some pw" and "map_of device ''device_type'' = Some dt"
    and "map_of device ''secret'' = Some sec"
  shows "connect_to_device env device w =
           (case env (trace w) (ConnectHandler ip un pw dt sec) of
              Inl e \<Rightarrow> Inl e | Inr _ \<Rightarrow> Inr (),
            w\<lparr>trace := trace w @ [ConnectHandler ip un pw dt sec]\<rparr>)"
  using assms
  by (simp add: connect_to_device_def io_bind_def getitem_def io_return_def invoke_def
      split: sum.splits)

lemma process_target_connect_fails:
  assumes "env (trace w) Now = Inr ts"
    and "map_of device ''ip'' = Some ip" and "map_of device ''username'' = Some un"
    and "map_of device ''password'' = Some pw" and "map_of device ''device_type'' = Some dt"
    and "map_of device ''secret'' = Some sec"
    and "env (trace w @ [Now]) (ConnectHandler ip un pw dt sec) = Inl e"
  shows "process_target env device w =
           (Inl e, w\<lparr>trace := trace w @ [Now, ConnectHandler ip un pw dt sec]\<rparr>)"
proof -
  have 1: "get_current_date_and_time env w = (Inr ts, w\<lparr>trace := trace w @ [Now]\<rparr>)"
    using assms(1) by (simp add: get_current_date_and_time_def invoke_def)
  have 2: "connect_to_device env device (w\<lparr>trace := trace w @ [Now]\<rparr>) =
            (Inl e, w\<lparr>trace := trace w @ [Now, ConnectHandler ip un pw dt sec]\<rparr>)"
    using assms(7) by (simp add: connect_to_device_run [OF assms(2-6)])
  show ?thesis
    unfolding process_target_def
    by (simp only: bind_Inr [where m = "get_current_date_and_time env" and w = w, OF 1]
        bind_Inl [where m = "connect_to_device env device", OF 2])
qed

lemma process_target_enable_fails:
  assumes "env (trace w) Now = Inr ts"
    and "map_of device ''ip'' = Some ip" and "map_of device ''username'' = Some un"
    and "map_of device ''password'' = Some pw" and "map_of device ''device_type'' = Some dt"
    and "map_of device ''secret'' = Some sec"
    and "env (trace w @ [Now]) (ConnectHandler ip un pw dt sec) = Inr c"
    and "env (trace w @ [Now, ConnectHandler ip un pw dt sec]) Enable = Inl e"
  shows "process_target env device w =
           (Inl e, w\<lparr>trace := trace w @ [Now, ConnectHandler ip un pw dt sec, Enable]\<rparr>)"
proof -
  have 1: "get_current_date_and_time env w = (Inr ts, w\<lparr>trace := trace w @ [Now]\<rparr>)"
    using assms(1) by (simp add: get_current_date_and_time_def invoke_def)
  have 2: "connect_to_device env device (w\<lparr>trace := trace w @ [Now]\<rparr>) =
            (Inr (), w\<lparr>trace := trace w @ [Now, ConnectHandler ip un pw dt sec]\<rparr>)"
    using assms(7) by (simp add: connect_to_device_run [OF assms(2-6)])
  have 3: "invoke env Enable (w\<lparr>trace := trace w @ [Now, ConnectHandler ip un pw dt sec]\<rparr>) =
            (Inl e, w\<lparr>trace := trace w @ [Now, ConnectHandler ip un pw dt sec, Enable]\<rparr>)"
    using assms(8) by (simp add: invoke_def)
  show ?thesis
    unfolding process_target_def
    by (simp only: bind_Inr [where m = "get_current_date_and_time env" and w = w, OF 1]
        bind_Inr [where m = "connect_to_device env device", OF 2]
        bind_Inl [where m = "invoke env Enable", OF 3])
qed

text \<open>
  Claim C2, as the code has it. \<open>process_target\<close> has no \<open>finally\<close>: the disconnect is
  its last statement. A run that returns has invoked \<open>disconnect\<close> exactly once, as its
  final operation, and the run returns when every operation succeeds and the device row has
  its seven columns. When the connection or the change to enable mode raises, the run ends
  with that exception after the operation that raised, and \<open>disconnect\<close> is not invoked.
\<close>

theorem C2_disconnect_when_processing_completes:
  "(process_target env device w = (Inr r, w') \<longrightarrow>
      (\<exists>evs. trace w' = trace w @ evs @ [Disconnect] \<and> Disconnect \<notin> set evs))
   \<and> ((\<forall>tr c. \<exists>s. env tr c = Inr s)
       \<and> (\<forall>k\<in>{''hostname'', ''ip'', ''username'', ''password'', ''device_type'', ''secret'', ''ntp''}.
             map_of device k \<noteq> None)
       \<longrightarrow> (\<exists>w1. process_target env device w = (Inr (), w1)))
   \<and> (env (trace w) Now = Inr ts
       \<and> map_of device ''ip'' = Some ip \<and> map_of device ''username'' = Some un
       \<and> map_of device ''password'' = Some pw \<and> map_of device ''device_type'' = Some dt
       \<and> map_of device ''secret'' = Some sec
       \<longrightarrow>
         (env (trace w @ [Now]) (ConnectHandler ip un pw dt sec) = Inl e \<longrightarrow>
            process_target env device w =
              (Inl e, w\<lparr>trace := trace w @ [Now, ConnectHandler ip un pw dt sec]\<rparr>))
       \<and> (env (trace w @ [Now]) (ConnectHandler ip un pw dt sec) = Inr c
           \<and> env (trace w @ [Now, ConnectHandler ip un pw dt sec]) Enable = Inl e \<longrightarrow>
            process_target env device w =
              (Inl e, w\<lparr>trace := trace w @ [Now, ConnectHandler ip un pw dt sec, Enable]\<rparr>)))"
proof (intro conjI impI)
  assume "process_target env device w = (Inr r, w')"
  then show "\<exists>evs. trace w' = trace w @ evs @ [Disconnect] \<and> Disconnect \<notin> set evs"
    using dl_process_target [of env device] unfolding disconnects_last_def by blast
next
  assume a: "(\<forall>tr c. \<exists>s. env tr c = Inr s)
       \<and> (\<forall>k\<in>{''hostname'', ''ip'', ''username'', ''password'', ''device_type'', ''secret'', ''ntp''}.
             map_of device k \<noteq> None)"
  have "returns (process_target env device)"
    by (rule ret_process_target [OF conjunct1 [OF a] conjunct2 [OF a]])
  then show "\<exists>w1. process_target env device w = (Inr (), w1)"
    unfolding returns_def by simp
next
  assume a: "env (trace w) Now = Inr ts
       \<and> map_of device ''ip'' = Some ip \<and> map_of device ''username'' = Some un
       \<and> map_of device ''password'' = Some pw \<and> map_of device ''device_type'' = Some dt
       \<and> map_of device ''secret'' = Some sec"
    and f: "env (trace w @ [Now]) (ConnectHandler ip un pw dt sec) = Inl e"
  have k: "env (trace w) Now = Inr ts" "map_of device ''ip'' = Some ip"
    "map_of device ''username'' = Some un" "map_of device ''password'' = Some pw"
    "map_of device ''device_type'' = Some dt" "map_of device ''secret'' = Some sec"
    using a by simp_all
  show "process_target env device w =
              (Inl e, w\<lparr>trace := trace w @ [Now, ConnectHandler ip un pw dt sec]\<rparr>)"
    by (rule process_target_connect_fails [where ts = ts, OF k f])
next
  assume a: "env (trace w) Now = Inr ts
       \<and> map_of device ''ip'' = Some ip \<and> map_of device ''username'' = Some un
       \<and> map_of device ''password'' = Some pw \<and> map_of device ''device_type'' = Some dt
       \<and> map_of device ''secret'' = Some sec"
    and f: "env (trace w @ [Now]) (ConnectHandler ip un pw dt sec) = Inr c
           \<and> env (trace w @ [Now, ConnectHandler ip un pw dt sec]) Enable = Inl e"
  have k: "env (trace w) Now = Inr ts" "map_of device ''ip'' = Some ip"
    "map_of device ''username'' = Some un" "map_of device ''password'' = Some pw"
    "map_of device ''device_type'' = Some dt" "map_of device ''secret'' = Some sec"
    using a by simp_all
  show "process_target env device w =
              (Inl e, w\<lparr>trace := trace w @ [Now, ConnectHandler ip un pw dt sec, Enable]\<rparr>)"
    by (rule process_target_enable_fails
        [where ts = ts and c = c, OF k conjunct1 [OF f] conjunct2 [OF f]])
qed

theorem C2_disconnect_when_processing_completes_witness:
  "(\<exists>w1 evs. process_target (scripted [(Now, Inr ''2024_01_01-00_00_00'')]) device_R1 world0
                = (Inr (), w1)
             \<and> trace w1 = trace world0 @ evs @ [Disconnect] \<and> Disconnect \<notin> set evs)
   \<and> process_target
        (scripted [(Now, Inr ''2024_01_01-00_00_00''),
                   (ConnectHandler ''10.0.0.1'' ''admin'' ''pw'' ''cisco_ios'' ''en'',
                    Inl (Raised ''NetmikoTimeoutException''))])
        device_R1 world0
      = (Inl (Raised ''NetmikoTimeoutException''),
         world0\<lparr>trace := trace world0 @
            [Now, ConnectHandler ''10.0.0.1'' ''admin'' ''pw'' ''cisco_ios'' ''en'']\<rparr>)
   \<and> process_target
        (scripted [(Now, Inr ''2024_01_01-00_00_00''), (Enable, Inl (Raised ''ValueError''))])
        device_R1 world0
      = (Inl (Raised ''ValueError''),
         world0\<lparr>trace := trace world0 @
            [Now, ConnectHandler ''10.0.0.1'' ''admin'' ''pw'' ''cisco_ios'' ''en'', Enable]\<rparr>)"
proof -
  let ?ok = "scripted [(Now, Inr ''2024_01_01-00_00_00'')]"
  let ?cf = "scripted [(Now, Inr ''2024_01_01-00_00_00''),
                   (ConnectHandler ''10.0.0.1'' ''admin'' ''pw'' ''cisco_ios'' ''en'',
                    Inl (Raised ''NetmikoTimeoutException''))]"
  let ?ef = "scripted [(Now, Inr ''2024_01_01-00_00_00''), (Enable, Inl (Raised ''ValueError''))]"
  have keys: "map_of device_R1 ''ip'' = Some ''10.0.0.1''"
    "map_of device_R1 ''username'' = Some ''admin''"
    "map_of device_R1 ''password'' = Some ''pw''"
    "map_of device_R1 ''device_type'' = Some ''cisco_ios''"
    "map_of device_R1 ''secret'' = Some ''en''"
    by (simp_all add: device_R1_def)
  have all_keys: "\<forall>k\<in>{''hostname'', ''ip'', ''username'', ''password'', ''device_type'', ''secret'', ''ntp''}.
             map_of device_R1 k \<noteq> None"
    by (simp add: device_R1_def)
  have ok: "\<forall>tr c. \<exists>s. ?ok tr c = Inr s"
    by (simp add: scripted_def)
  obtain w1 where r: "process_target ?ok device_R1 world0 = (Inr (), w1)"
    using C2_disconnect_when_processing_completes [where env = ?ok and device = device_R1
        and w = world0, THEN conjunct2, THEN conjunct1] ok all_keys
    by blast
  then obtain evs where "trace w1 = trace world0 @ evs @ [Disconnect]" "Disconnect \<notin> set evs"
    using C2_disconnect_when_processing_completes [where env = ?ok and device = device_R1
        and w = world0 and r = "()" and w' = w1, THEN conjunct1]
    by blast
  then have A: "\<exists>w1 evs. process_target ?ok device_R1 world0 = (Inr (), w1)
             \<and> trace w1 = trace world0 @ evs @ [Disconnect] \<and> Disconnect \<notin> set evs"
    using r by blast
  have c1: "?cf (trace world0) Now = Inr ''2024_01_01-00_00_00''"
    and c2: "?cf (trace world0 @ [Now]) (ConnectHandler ''10.0.0.1'' ''admin'' ''pw'' ''cisco_ios'' ''en'')
             = Inl (Raised ''NetmikoTimeoutException'')"
    by (simp_all add: scripted_def)
  have hb: "?cf (trace world0) Now = Inr ''2024_01_01-00_00_00''
       \<and> map_of device_R1 ''ip'' = Some ''10.0.0.1'' \<and> map_of device_R1 ''username'' = Some ''admin''
       \<and> map_of device_R1 ''password'' = Some ''pw'' \<and> map_of device_R1 ''device_type'' = Some ''cisco_ios''
       \<and> map_of device_R1 ''secret'' = Some ''en''"
    using c1 keys by (intro conjI)
  have B: "process_target ?cf device_R1 world0
      = (Inl (Raised ''NetmikoTimeoutException''),
         world0\<lparr>trace := trace world0 @
            [Now, ConnectHandler ''10.0.0.1'' ''admin'' ''pw'' ''cisco_ios'' ''en'']\<rparr>)"
    using C2_disconnect_when_processing_completes [where env = ?cf and device = device_R1
        and w = world0 and ts = "''2024_01_01-00_00_00''" and ip = "''10.0.0.1''"
        and un = "''admin''" and pw = "''pw''" and dt = "''cisco_ios''" and sec = "''en''"
        and e = "Raised ''NetmikoTimeoutException''",
        THEN conjunct2, THEN conjunct2, THEN mp, OF hb, THEN conjunct1, THEN mp, OF c2]
    by simp
  have e1: "?ef (trace world0) Now = Inr ''2024_01_01-00_00_00''"
    and e2: "?ef (trace world0 @ [Now]) (ConnectHandler ''10.0.0.1'' ''admin'' ''pw'' ''cisco_ios'' ''en'')
             = Inr []"
    and e3: "?ef (trace world0 @ [Now, ConnectHandler ''10.0.0.1'' ''admin'' ''pw'' ''cisco_ios'' ''en'']) Enable
             = Inl (Raised ''ValueError'')"
    by (simp_all add: scripted_def)
  have he: "?ef (trace world0) Now = Inr ''2024_01_01-00_00_00''
       \<and> map_of device_R1 ''ip'' = Some ''10.0.0.1'' \<and> map_of device_R1 ''username'' = Some ''admin''
       \<and> map_of device_R1 ''password'' = Some ''pw'' \<and> map_of device_R1 ''device_type'' = Some ''cisco_ios''
       \<and> map_of device_R1 ''secret'' = Some ''en''"
    using e1 keys by (intro conjI)
  have C: "process_target ?ef device_R1 world0
      = (Inl (Raised ''ValueError''),
         world0\<lparr>trace := trace world0 @
            [Now, ConnectHandler ''10.0.0.1'' ''admin'' ''pw'' ''cisco_ios'' ''en'', Enable]\<rparr>)"
    using C2_disconnect_when_processing_completes [where env = ?ef and device = device_R1
        and w = world0 and ts = "''2024_01_01-00_00_00''" and ip = "''10.0.0.1''"
        and un = "''admin''" and pw = "''pw''" and dt = "''cisco_ios''" and sec = "''en''"
        and e = "Raised ''ValueError''" and c = "[]",
        THEN conjunct2, THEN conjunct2, THEN mp, OF he, THEN conjunct2, THEN mp,
        OF conjI [OF e2 e3]]
    by simp
  from A B C show ?thesis by (intro conjI)
qed

text \<open>
  Claim C2 as stated, at a session whose change to enable mode raises: the run ends there
  and \<open>disconnect\<close> is never invoked.
\<close>

theorem C2_enable_fails_counterexample:
  "fst (process_target
          (scripted [(Now, Inr ''2024_01_01-00_00_00''), (Enable, Inl (Raised ''ValueError''))])
          device_R1 world0) = Inl (Raised ''ValueError'')
   \<and> trace (snd (process_target
          (scripted [(Now, Inr ''2024_01_01-00_00_00''), (Enable, Inl (Raised ''ValueError''))])
          device_R1 world0))
       = [Now, ConnectHandler ''10.0.0.1'' ''admin'' ''pw'' ''cisco_ios'' ''en'', Enable]
   \<and> count_list (trace (snd (process_target
          (scripted [(Now, Inr ''2024_01_01-00_00_00''), (Enable, Inl (Raised ''ValueError''))])
          device_R1 world0))) Disconnect = 0"
  by code_simp


section \<open>Failure containment\<close>

lemma get_device_ver_info_raises:
  assumes "env (trace w) (SendCommand ''sh ver'') = Inl e"
  shows "get_device_ver_info env w =
           (Inl (NameError ''Error''), w\<lparr>trace := trace w @ [SendCommand ''sh ver'']\<rparr>)"
  by (simp add: get_device_ver_info_def try_except_Error_def io_bind_def send_command_run assms)

text \<open>
  Claim C1 at a failing input. The session raises on \<open>sh ver\<close>. The version extractor
  does not return \<open>DEVICE VERSION FAILED\<close>: matching the exception against \<open>Error\<close>
  raises \<open>NameError\<close>, which leaves the extractor and \<open>process_target\<close>. The CDP and
  NTP extractors do not run, no report line is printed, and the session is not closed.
\<close>

theorem C1_version_failure_propagates:
  "get_device_ver_info (scripted [(SendCommand ''sh ver'', Inl (Raised ''ReadTimeout''))]) world0
     = (Inl (NameError ''Error''), world0\<lparr>trace := [SendCommand ''sh ver'']\<rparr>)
   \<and> fst (process_target
          (scripted [(Now, Inr ''2024_01_01-00_00_00''),
                     (SendCommand ''sh ver'', Inl (Raised ''ReadTimeout''))])
          device_R1 world0) = Inl (NameError ''Error'')
   \<and> stdout (snd (process_target
          (scripted [(Now, Inr ''2024_01_01-00_00_00''),
                     (SendCommand ''sh ver'', Inl (Raised ''ReadTimeout''))])
          device_R1 world0)) = []
   \<and> trace (snd (process_target
          (scripted [(Now, Inr ''2024_01_01-00_00_00''),
                     (SendCommand ''sh ver'', Inl (Raised ''ReadTimeout''))])
          device_R1 world0))
       = [Now, ConnectHandler ''10.0.0.1'' ''admin'' ''pw'' ''cisco_ios'' ''en'', Enable,
          SendCommand ''terminal len 0'', Sleep 1, SendCommand ''terminal width 511'', Sleep 1,
          MakeDirs ''C:/Temp/_CiscoDevNet/backup/R1'', SendCommand ''sh run'',
          WriteFile ''C:/Temp/_CiscoDevNet/backup/R1/R1-2024_01_01-00_00_00.txt'' [],
          SendCommand ''sh inv'', SendCommand ''sh ver'']"
  by code_simp

end
